theory Spec2Isabelle
  imports Complex_Main "HOL-Library.AList"
begin

section \<open>Conventions of the embedding\<close>

text \<open>
  The Python sources are \<^verbatim>\<open>utils/tracking.py\<close>, \<^verbatim>\<open>utils/speed_estimation.py\<close> and
  \<^verbatim>\<open>utils/metrics.py\<close>.

  \<^item> Python \<^verbatim>\<open>float\<close> values are modelled as \<^typ>\<open>real\<close> (rounding, infinities and NaN are
    idealised away), Python \<^verbatim>\<open>int\<close> as \<^typ>\<open>int\<close>.
  \<^item> The outlier gate of \<^verbatim>\<open>SpeedSmoother.add_speed\<close> branches on whether the float that
    \<^verbatim>\<open>np.std\<close> returns is exactly \<open>0\<close>, which rounding decides (the float deviation of the
    window \<open>0.1, 0.1, 0.1\<close> is positive). There numpy's \<^verbatim>\<open>np.mean\<close> and \<^verbatim>\<open>np.std\<close> are
    parameters of the model, taken as numpy computes them.
  \<^item> An exception is a value of \<open>error\<close>. A method that mutates its object before raising
    returns the object as it is at the raise together with the exception.
  \<^item> \<^verbatim>\<open>a / b\<close> on Python numbers raises \<^verbatim>\<open>ZeroDivisionError\<close> for \<^verbatim>\<open>b == 0\<close>.
  \<^item> A \<^verbatim>\<open>dict\<close> is an association list in insertion order (\<^const>\<open>AList.update\<close> overwrites
    in place or appends, as \<^verbatim>\<open>d[k] = v\<close> does; \<^const>\<open>AList.delete\<close> is \<^verbatim>\<open>del d[k]\<close>).
  \<^item> \<^verbatim>\<open>collections.deque(maxlen=n)\<close> is a record of the bound and the items, oldest first.
\<close>

datatype error = ValueError | KeyError | ZeroDivisionError | Cv2Error

definition py_truediv :: "real \<Rightarrow> real \<Rightarrow> error + real" where
  "py_truediv a b = (if b = 0 then Inl ZeroDivisionError else Inr (a / b))"

section \<open>Bounded deques\<close>

record 'a deque =
  maxlen :: nat
  items :: "'a list"

text \<open>\<^verbatim>\<open>deque(maxlen=n)\<close> raises \<^verbatim>\<open>ValueError\<close> for a negative bound.\<close>

definition deque_new :: "int \<Rightarrow> error + 'a deque" where
  "deque_new n = (if n < 0 then Inl ValueError else Inr \<lparr>maxlen = nat n, items = []\<rparr>)"

text \<open>\<^verbatim>\<open>d.append(x)\<close>: the item is added on the right; a deque that is then longer than
  its bound drops its leftmost item.\<close>

definition deque_append :: "'a \<Rightarrow> 'a deque \<Rightarrow> 'a deque" where
  "deque_append x d =
     (let ys = items d @ [x]
      in d\<lparr>items := (if length ys > maxlen d then tl ys else ys)\<rparr>)"

definition deque_len :: "'a deque \<Rightarrow> nat" where
  "deque_len d = length (items d)"

section \<open>tracking.py: VehicleTrack\<close>

type_synonym bbox = "real \<times> real \<times> real \<times> real"
type_synonym point = "real \<times> real"

record VehicleTrack =
  track_id :: int
  max_history :: int
  centroids :: "point deque"
  bboxes :: "bbox deque"
  frame_indices :: "int deque"
  speeds_px :: "real deque"
  speeds_real :: "real deque"
  class_id :: "int option"
  class_name :: "string option"
  first_frame :: "int option"
  last_frame :: "int option"
  total_frames :: int
  is_active :: bool

text \<open>\<^verbatim>\<open>VehicleTrack.__init__\<close>: the five deques share the bound \<^verbatim>\<open>max_history\<close>; the first
  \<^verbatim>\<open>deque(maxlen=max_history)\<close> raises when the bound is negative.\<close>

definition VehicleTrack_init :: "int \<Rightarrow> int \<Rightarrow> error + VehicleTrack" where
  "VehicleTrack_init tid mh =
     (if mh < 0 then Inl ValueError
      else Inr \<lparr>track_id = tid, max_history = mh,
                centroids = \<lparr>maxlen = nat mh, items = []\<rparr>,
                bboxes = \<lparr>maxlen = nat mh, items = []\<rparr>,
                frame_indices = \<lparr>maxlen = nat mh, items = []\<rparr>,
                speeds_px = \<lparr>maxlen = nat mh, items = []\<rparr>,
                speeds_real = \<lparr>maxlen = nat mh, items = []\<rparr>,
                class_id = None, class_name = None,
                first_frame = None, last_frame = None,
                total_frames = 0, is_active = True\<rparr>)"

definition compute_centroid :: "bbox \<Rightarrow> point" where
  "compute_centroid b = (case b of (x1, y1, x2, y2) \<Rightarrow> ((x1 + x2) / 2, (y1 + y2) / 2))"

definition compute_bbox_area :: "bbox \<Rightarrow> real" where
  "compute_bbox_area b = (case b of (x1, y1, x2, y2) \<Rightarrow> (x2 - x1) * (y2 - y1))"

definition compute_speed_pixels :: "VehicleTrack \<Rightarrow> real" where
  "compute_speed_pixels t =
     (let cs = items (centroids t); n = length cs
      in if n < 2 then 0
         else (case (cs ! (n - 2), cs ! (n - 1)) of
                 ((x1, y1), (x2, y2)) \<Rightarrow> sqrt ((x2 - x1)\<^sup>2 + (y2 - y1)\<^sup>2)))"

definition VehicleTrack_update ::
    "bbox \<Rightarrow> int \<Rightarrow> int option \<Rightarrow> string option \<Rightarrow> VehicleTrack \<Rightarrow> VehicleTrack" where
  "VehicleTrack_update b frame_idx cid cname t =
     (let centroid = compute_centroid b;
          t1 = t\<lparr>centroids := deque_append centroid (centroids t),
                 bboxes := deque_append b (bboxes t),
                 frame_indices := deque_append frame_idx (frame_indices t)\<rparr>;
          t2 = (case cid of None \<Rightarrow> t1 | Some c \<Rightarrow> t1\<lparr>class_id := Some c\<rparr>);
          t3 = (case cname of None \<Rightarrow> t2 | Some s \<Rightarrow> t2\<lparr>class_name := Some s\<rparr>);
          t4 = (case first_frame t3 of None \<Rightarrow> t3\<lparr>first_frame := Some frame_idx\<rparr>
                | Some _ \<Rightarrow> t3);
          t5 = t4\<lparr>last_frame := Some frame_idx, total_frames := total_frames t4 + 1\<rparr>
      in if deque_len (centroids t5) \<ge> 2
         then t5\<lparr>speeds_px := deque_append (compute_speed_pixels t5) (speeds_px t5)\<rparr>
         else t5)"

text \<open>\<^verbatim>\<open>xs[-window:]\<close> of a Python list: the last \<open>window\<close> items for a positive
  \<open>window\<close>, the whole list for \<open>0\<close>, and \<open>xs[k:]\<close> for \<open>window = -k\<close>.\<close>

definition last_window :: "int \<Rightarrow> 'a list \<Rightarrow> 'a list" where
  "last_window w xs = (if w > 0 then drop (length xs - nat w) xs else drop (nat (- w)) xs)"

text \<open>\<^verbatim>\<open>np.mean\<close> of a non-empty sequence.\<close>

definition np_mean :: "real list \<Rightarrow> real" where
  "np_mean xs = sum_list xs / real (length xs)"

definition get_average_speed_pixels :: "int \<Rightarrow> VehicleTrack \<Rightarrow> real" where
  "get_average_speed_pixels window t =
     (if items (speeds_px t) = [] then 0
      else (let recent_speeds = last_window window (items (speeds_px t))
            in if recent_speeds = [] then 0 else np_mean recent_speeds))"

definition is_stopped :: "real \<Rightarrow> int \<Rightarrow> VehicleTrack \<Rightarrow> bool" where
  "is_stopped threshold window t = (get_average_speed_pixels window t < threshold)"

definition get_current_bbox :: "VehicleTrack \<Rightarrow> bbox option" where
  "get_current_bbox t = (if items (bboxes t) = [] then None else Some (last (items (bboxes t))))"

text \<open>A sequence of \<^verbatim>\<open>update\<close> calls on one track, one call per observation
  \<open>(bbox, frame_idx, class_id, class_name)\<close>.\<close>

type_synonym observation = "bbox \<times> int \<times> int option \<times> string option"

fun track_updates :: "observation list \<Rightarrow> VehicleTrack \<Rightarrow> VehicleTrack" where
  "track_updates [] t = t"
| "track_updates ((b, f, cid, cname) # obs) t =
     track_updates obs (VehicleTrack_update b f cid cname t)"

section \<open>tracking.py: TrackManager\<close>

type_synonym detection = "int \<times> bbox \<times> int option \<times> string option"

record TrackManager =
  max_age :: int
  mgr_max_history :: int
  tracks :: "(int \<times> VehicleTrack) list"
  track_ages :: "(int \<times> int) list"
  completed_tracks :: "VehicleTrack list"
  total_tracks_created :: int
  total_tracks_completed :: int

definition TrackManager_init :: "int \<Rightarrow> int \<Rightarrow> TrackManager" where
  "TrackManager_init ma mh =
     \<lparr>max_age = ma, mgr_max_history = mh, tracks = [], track_ages = [],
      completed_tracks = [], total_tracks_created = 0, total_tracks_completed = 0\<rparr>"

text \<open>The body of the first loop of \<^verbatim>\<open>TrackManager.update\<close>, for one detection.
  Creating the track of an unknown id can raise (negative \<^verbatim>\<open>max_history\<close>), with the
  manager unchanged. \<^verbatim>\<open>self.tracks[track_id]\<close> raises \<^verbatim>\<open>KeyError\<close> for a missing key.\<close>

fun update_detection :: "detection \<Rightarrow> int \<Rightarrow> TrackManager \<Rightarrow> TrackManager \<times> error option" where
  "update_detection (tid, b, cid, cname) frame_idx m =
     (case (if map_of (tracks m) tid = None
            then (case VehicleTrack_init tid (mgr_max_history m) of
                    Inl e \<Rightarrow> Inl e
                  | Inr t \<Rightarrow> Inr (m\<lparr>tracks := AList.update tid t (tracks m),
                                    total_tracks_created := total_tracks_created m + 1\<rparr>))
            else Inr m) of
        Inl e \<Rightarrow> (m, Some e)
      | Inr m1 \<Rightarrow>
          (case map_of (tracks m1) tid of
             None \<Rightarrow> (m1, Some KeyError)
           | Some t \<Rightarrow>
               (m1\<lparr>tracks := AList.update tid (VehicleTrack_update b frame_idx cid cname t) (tracks m1),
                   track_ages := AList.update tid 0 (track_ages m1)\<rparr>, None)))"

text \<open>The first loop: it stops at the first detection that raises.\<close>

fun update_detections :: "detection list \<Rightarrow> int \<Rightarrow> TrackManager \<Rightarrow> TrackManager \<times> error option" where
  "update_detections [] frame_idx m = (m, None)"
| "update_detections (det # ds) frame_idx m =
     (case update_detection det frame_idx m of
        (m1, Some e) \<Rightarrow> (m1, Some e)
      | (m1, None) \<Rightarrow> update_detections ds frame_idx m1)"

text \<open>The age that the ageing loop reads: \<^verbatim>\<open>self.track_ages.get(track_id, 0)\<close>.\<close>

definition age_of :: "TrackManager \<Rightarrow> int \<Rightarrow> int" where
  "age_of m k = (case map_of (track_ages m) k of None \<Rightarrow> 0 | Some a \<Rightarrow> a)"

text \<open>The second loop: every key of \<^verbatim>\<open>list(self.tracks.keys())\<close> that was not detected
  ages by one; the ids whose age exceeds \<^verbatim>\<open>max_age\<close> are collected in order.\<close>

fun age_tracks :: "int list \<Rightarrow> int list \<Rightarrow> TrackManager \<Rightarrow> TrackManager \<times> int list" where
  "age_tracks [] detected_ids m = (m, [])"
| "age_tracks (tid # tids) detected_ids m =
     (if tid \<notin> set detected_ids
      then (let age = age_of m tid + 1;
                m1 = m\<lparr>track_ages := AList.update tid age (track_ages m)\<rparr>;
                r = age_tracks tids detected_ids m1
            in (fst r, if age > max_age m1 then tid # snd r else snd r))
      else age_tracks tids detected_ids m)"

text \<open>\<^verbatim>\<open>remove_track\<close>: \<^verbatim>\<open>del self.track_ages[track_id]\<close> raises \<^verbatim>\<open>KeyError\<close> when the
  id has no age, after the track has been archived and deleted.\<close>

definition remove_track :: "int \<Rightarrow> TrackManager \<Rightarrow> TrackManager \<times> error option" where
  "remove_track tid m =
     (case map_of (tracks m) tid of
        None \<Rightarrow> (m, None)
      | Some t \<Rightarrow>
          (let m1 = m\<lparr>completed_tracks := completed_tracks m @ [t\<lparr>is_active := False\<rparr>],
                      tracks := AList.delete tid (tracks m)\<rparr>
           in if map_of (track_ages m1) tid = None then (m1, Some KeyError)
              else (m1\<lparr>track_ages := AList.delete tid (track_ages m1),
                       total_tracks_completed := total_tracks_completed m1 + 1\<rparr>, None)))"

fun remove_tracks :: "int list \<Rightarrow> TrackManager \<Rightarrow> TrackManager \<times> error option" where
  "remove_tracks [] m = (m, None)"
| "remove_tracks (tid # tids) m =
     (case remove_track tid m of
        (m1, Some e) \<Rightarrow> (m1, Some e)
      | (m1, None) \<Rightarrow> remove_tracks tids m1)"

definition TrackManager_update :: "detection list \<Rightarrow> int \<Rightarrow> TrackManager \<Rightarrow> TrackManager \<times> error option" where
  "TrackManager_update detections frame_idx m =
     (case update_detections detections frame_idx m of
        (m1, Some e) \<Rightarrow> (m1, Some e)
      | (m1, None) \<Rightarrow>
          (let r = age_tracks (map fst (tracks m1)) (map fst detections) m1
           in remove_tracks (snd r) (fst r)))"

definition get_active_tracks :: "TrackManager \<Rightarrow> VehicleTrack list" where
  "get_active_tracks m = map snd (tracks m)"

definition clear :: "TrackManager \<Rightarrow> TrackManager \<times> error option" where
  "clear m = remove_tracks (map fst (tracks m)) m"

text \<open>Sequences of calls on one manager. A caller that catches an exception goes on with
  the manager as the raising call left it.\<close>

datatype manager_op = Update "detection list" int | RemoveTrack int | Clear

fun apply_op :: "manager_op \<Rightarrow> TrackManager \<Rightarrow> TrackManager \<times> error option" where
  "apply_op (Update ds frame_idx) m = TrackManager_update ds frame_idx m"
| "apply_op (RemoveTrack tid) m = remove_track tid m"
| "apply_op Clear m = clear m"

fun run_ops :: "manager_op list \<Rightarrow> TrackManager \<Rightarrow> TrackManager" where
  "run_ops [] m = m"
| "run_ops (op # ops) m = run_ops ops (fst (apply_op op m))"

section \<open>speed_estimation.py: the estimators\<close>

record SpeedEstimator =
  fps :: real
  frame_time :: real

record PixelSpeedEstimator = SpeedEstimator +
  pixels_per_meter :: real

record 'h HomographySpeedEstimator = SpeedEstimator +
  homography_matrix :: "'h option"

text \<open>\<^verbatim>\<open>SpeedEstimator.__init__\<close> stores \<^verbatim>\<open>fps\<close> and computes \<^verbatim>\<open>1.0 / fps\<close>; there is no
  other check of \<^verbatim>\<open>fps\<close>.\<close>

definition SpeedEstimator_init :: "real \<Rightarrow> error + SpeedEstimator" where
  "SpeedEstimator_init f =
     (case py_truediv 1 f of
        Inl e \<Rightarrow> Inl e
      | Inr ft \<Rightarrow> Inr \<lparr>fps = f, frame_time = ft\<rparr>)"

definition PixelSpeedEstimator_init :: "real \<Rightarrow> real \<Rightarrow> error + PixelSpeedEstimator" where
  "PixelSpeedEstimator_init f ppm =
     (case SpeedEstimator_init f of
        Inl e \<Rightarrow> Inl e
      | Inr base \<Rightarrow> Inr \<lparr>fps = fps base, frame_time = frame_time base, pixels_per_meter = ppm\<rparr>)"

definition pixels_to_speed :: "real \<Rightarrow> PixelSpeedEstimator \<Rightarrow> error + real" where
  "pixels_to_speed pixels_per_frame est =
     (case py_truediv pixels_per_frame (pixels_per_meter est) of
        Inl e \<Rightarrow> Inl e
      | Inr meters_per_frame \<Rightarrow> Inr (meters_per_frame * fps est * 3.6))"

text \<open>\<^verbatim>\<open>HomographySpeedEstimator.__init__\<close>. \<^verbatim>\<open>cv2.findHomography\<close> is a library outside the
  repository: it is the parameter \<open>findHomography\<close>, which may raise or return a matrix or
  \<^verbatim>\<open>None\<close>.\<close>

definition HomographySpeedEstimator_init ::
    "(point list \<Rightarrow> point list \<Rightarrow> error + 'h option) \<Rightarrow> real \<Rightarrow>
     point list option \<Rightarrow> point list option \<Rightarrow> error + 'h HomographySpeedEstimator" where
  "HomographySpeedEstimator_init findHomography f image_points world_points =
     (case SpeedEstimator_init f of
        Inl e \<Rightarrow> Inl e
      | Inr base \<Rightarrow>
          (let est = \<lparr>fps = fps base, frame_time = frame_time base, homography_matrix = None\<rparr>
           in case (image_points, world_points) of
                (Some ip, Some wp) \<Rightarrow>
                  (case findHomography ip wp of
                     Inl e \<Rightarrow> Inl e
                   | Inr H \<Rightarrow> Inr (est\<lparr>homography_matrix := H\<rparr>))
              | _ \<Rightarrow> Inr est))"

section \<open>speed_estimation.py: SpeedSmoother\<close>

record SpeedSmoother =
  window_size :: int
  outlier_threshold :: real
  speed_history :: "real deque"

definition SpeedSmoother_init :: "int \<Rightarrow> real \<Rightarrow> error + SpeedSmoother" where
  "SpeedSmoother_init ws thr =
     (case deque_new ws of
        Inl e \<Rightarrow> Inl e
      | Inr dq \<Rightarrow> Inr \<lparr>window_size = ws, outlier_threshold = thr, speed_history = dq\<rparr>)"

text \<open>\<^verbatim>\<open>add_speed\<close> returns the smoothed value and the updated smoother. numpy is outside
  the repository: \<open>mean_f\<close> and \<open>std_f\<close> stand for \<^verbatim>\<open>np.mean\<close> and \<^verbatim>\<open>np.std\<close> on a window, as
  numpy computes them in floating point. \<^verbatim>\<open>np.mean\<close> of an empty window (possible only for
  \<^verbatim>\<open>window_size = 0\<close>) is NaN: the result \<open>None\<close>.\<close>

definition add_speed ::
    "(real list \<Rightarrow> real) \<Rightarrow> (real list \<Rightarrow> real) \<Rightarrow> real \<Rightarrow> SpeedSmoother \<Rightarrow>
     real option \<times> SpeedSmoother" where
  "add_speed mean_f std_f speed s =
     (let speed1 =
            (if deque_len (speed_history s) > 2
             then (let mean = mean_f (items (speed_history s));
                       std = std_f (items (speed_history s))
                   in if std > 0
                      then (let z_score = \<bar>(speed - mean) / std\<bar>
                            in if z_score > outlier_threshold s then mean else speed)
                      else speed)
             else speed);
          s1 = s\<lparr>speed_history := deque_append speed1 (speed_history s)\<rparr>
      in (if items (speed_history s1) = [] then None
          else Some (mean_f (items (speed_history s1))), s1))"

text \<open>The exact population standard deviation. It is not the model of \<^verbatim>\<open>np.std\<close>: the two
  agree where every intermediate value of numpy's computation is a float without rounding,
  as on the window \<open>10, 10, 10\<close> (mean \<open>10.0\<close>, deviations \<open>0.0\<close>, result \<open>0.0\<close>). It serves
  as a concrete deviation on such windows only.\<close>

definition exact_std :: "real list \<Rightarrow> real" where
  "exact_std xs = sqrt (np_mean (map (\<lambda>x. \<bar>x - np_mean xs\<bar>\<^sup>2) xs))"

section \<open>metrics.py: CongestionDetector\<close>

datatype CongestionLevel = FREE_FLOW | LIGHT | MODERATE | HEAVY | TRAFFIC_JAM

record CongestionMetrics =
  vehicle_count :: int
  occupancy_ratio :: real
  average_speed :: real
  stopped_count :: int
  flow_rate :: real
  queue_length :: real
  density_score :: real
  speed_score :: real
  flow_score :: real
  congestion_score :: real
  congestion_level :: CongestionLevel
  frame_idx :: int
  timestamp :: real
  m_roi_area :: real

record CongestionDetector =
  roi_area :: real
  max_vehicles :: int
  max_speed :: real
  stopped_threshold :: real
  density_weight :: real
  speed_weight :: real
  flow_weight :: real
  queue_weight :: real
  vehicle_entry_count :: int
  flow_window_frames :: int
  flow_window_duration :: int
  thresholds :: "(CongestionLevel \<times> real \<times> real) list"

text \<open>\<^verbatim>\<open>np.isclose(a, b)\<close> with numpy's default tolerances \<^verbatim>\<open>rtol=1e-05\<close>, \<^verbatim>\<open>atol=1e-08\<close>.\<close>

definition np_isclose :: "real \<Rightarrow> real \<Rightarrow> bool" where
  "np_isclose a b = (\<bar>a - b\<bar> \<le> 1 / 10 ^ 8 + 1 / 10 ^ 5 * \<bar>b\<bar>)"

definition default_thresholds :: "(CongestionLevel \<times> real \<times> real) list" where
  "default_thresholds =
     [(FREE_FLOW, (0, 0.2)), (LIGHT, (0.2, 0.4)), (MODERATE, (0.4, 0.6)),
      (HEAVY, (0.6, 0.8)), (TRAFFIC_JAM, (0.8, 1))]"

definition CongestionDetector_init ::
    "real \<Rightarrow> int \<Rightarrow> real \<Rightarrow> real \<Rightarrow> real \<Rightarrow> real \<Rightarrow> real \<Rightarrow> real \<Rightarrow> error + CongestionDetector" where
  "CongestionDetector_init ra mv ms st dw sw fw qw =
     (let total_weight = 0 + dw + sw + fw + qw
      in if \<not> np_isclose total_weight 1 then Inl ValueError
         else Inr \<lparr>roi_area = ra, max_vehicles = mv, max_speed = ms, stopped_threshold = st,
                   density_weight = dw, speed_weight = sw, flow_weight = fw, queue_weight = qw,
                   vehicle_entry_count = 0, flow_window_frames = 0, flow_window_duration = 60,
                   thresholds = default_thresholds\<rparr>)"

text \<open>The detector that \<^verbatim>\<open>CongestionDetector()\<close> builds from the default arguments.\<close>

definition default_detector :: CongestionDetector where
  "default_detector =
     \<lparr>roi_area = 640 * 480, max_vehicles = 50, max_speed = 100, stopped_threshold = 2,
      density_weight = 0.35, speed_weight = 0.35, flow_weight = 0.20, queue_weight = 0.10,
      vehicle_entry_count = 0, flow_window_frames = 0, flow_window_duration = 60,
      thresholds = default_thresholds\<rparr>"

definition compute_density_score :: "int \<Rightarrow> real \<Rightarrow> CongestionDetector \<Rightarrow> error + real" where
  "compute_density_score vc total_bbox_area d =
     (case py_truediv (real_of_int vc) (real_of_int (max_vehicles d)) of
        Inl e \<Rightarrow> Inl e
      | Inr q1 \<Rightarrow>
          (let count_density = min q1 1
           in case py_truediv total_bbox_area (roi_area d) of
                Inl e \<Rightarrow> Inl e
              | Inr q2 \<Rightarrow>
                  (let area_density = min q2 1
                   in Inr ((count_density + area_density) / 2))))"

definition compute_speed_score :: "real \<Rightarrow> CongestionDetector \<Rightarrow> error + real" where
  "compute_speed_score avg d =
     (if avg \<le> 0 then Inr 1
      else (case py_truediv avg (max_speed d) of
              Inl e \<Rightarrow> Inl e
            | Inr q \<Rightarrow> (let normalized_speed = min q 1 in Inr (1 - normalized_speed))))"

definition compute_flow_score :: "real \<Rightarrow> real \<Rightarrow> CongestionDetector \<Rightarrow> error + real" where
  "compute_flow_score fr expected_flow d =
     (if fr \<le> 0 then Inr 1
      else (case py_truediv fr expected_flow of
              Inl e \<Rightarrow> Inl e
            | Inr q \<Rightarrow> (let normalized_flow = min q 1 in Inr (1 - normalized_flow))))"

definition compute_queue_score :: "int \<Rightarrow> int \<Rightarrow> CongestionDetector \<Rightarrow> error + real" where
  "compute_queue_score sc vc d =
     (if vc = 0 then Inr 0 else py_truediv (real_of_int sc) (real_of_int vc))"

definition compute_congestion_score :: "real \<Rightarrow> real \<Rightarrow> real \<Rightarrow> real \<Rightarrow> CongestionDetector \<Rightarrow> real" where
  "compute_congestion_score ds ss fs qs d =
     density_weight d * ds + speed_weight d * ss + flow_weight d * fs + queue_weight d * qs"

text \<open>\<^verbatim>\<open>classify_congestion\<close> walks the table in its order and returns at the first band
  that holds the score.\<close>

fun classify_bands :: "(CongestionLevel \<times> real \<times> real) list \<Rightarrow> real \<Rightarrow> CongestionLevel" where
  "classify_bands [] score = TRAFFIC_JAM"
| "classify_bands ((level, (min_score, max_score)) # rest) score =
     (if min_score \<le> score \<and> score < max_score then level else classify_bands rest score)"

definition classify_congestion :: "real \<Rightarrow> CongestionDetector \<Rightarrow> CongestionLevel" where
  "classify_congestion score d = classify_bands (thresholds d) score"

definition customize_thresholds ::
    "(CongestionLevel \<times> real \<times> real) list \<Rightarrow> CongestionDetector \<Rightarrow> CongestionDetector" where
  "customize_thresholds ths d = d\<lparr>thresholds := ths\<rparr>"

definition set_roi_area :: "int \<Rightarrow> int \<Rightarrow> CongestionDetector \<Rightarrow> CongestionDetector" where
  "set_roi_area width height d = d\<lparr>roi_area := real_of_int (width * height)\<rparr>"

text \<open>\<^verbatim>\<open>timestamp or (frame_idx / fps)\<close>: a timestamp that is \<^verbatim>\<open>None\<close> or \<open>0\<close> is falsy.\<close>

definition resolve_timestamp :: "real option \<Rightarrow> int \<Rightarrow> real \<Rightarrow> error + real" where
  "resolve_timestamp ts fi f =
     (case ts of
        Some t \<Rightarrow> (if t \<noteq> 0 then Inr t else py_truediv (real_of_int fi) f)
      | None \<Rightarrow> py_truediv (real_of_int fi) f)"

text \<open>The loop of \<^verbatim>\<open>analyze\<close> over the tracks, on the accumulators
  \<open>(speeds, stopped_count, total_bbox_area)\<close>.\<close>

fun track_metrics ::
    "real \<Rightarrow> VehicleTrack list \<Rightarrow> real list \<times> int \<times> real \<Rightarrow> real list \<times> int \<times> real" where
  "track_metrics thr [] acc = acc"
| "track_metrics thr (t # ts) (speeds, sc, area) =
     track_metrics thr ts
       (speeds @ [get_average_speed_pixels 5 t],
        (if is_stopped thr 5 t then sc + 1 else sc),
        (case get_current_bbox t of
           None \<Rightarrow> area
         | Some (x1, y1, x2, y2) \<Rightarrow> area + (x2 - x1) * (y2 - y1)))"

text \<open>The flow-window step of \<^verbatim>\<open>analyze\<close>, the only place that assigns to the detector.\<close>

definition advance_flow_window :: "real \<Rightarrow> CongestionDetector \<Rightarrow> CongestionDetector" where
  "advance_flow_window f d =
     (let d1 = d\<lparr>flow_window_frames := flow_window_frames d + 1\<rparr>
      in if real_of_int (flow_window_frames d1) \<ge> f * real_of_int (flow_window_duration d1)
         then d1\<lparr>flow_window_frames := 0, vehicle_entry_count := 0\<rparr>
         else d1)"

definition estimate_flow_rate :: "int \<Rightarrow> real \<Rightarrow> CongestionDetector \<Rightarrow> error + real" where
  "estimate_flow_rate vc f d =
     (if flow_window_frames d > 0
      then (case py_truediv (real_of_int (flow_window_frames d)) (f * 60) of
              Inl e \<Rightarrow> Inl e
            | Inr elapsed_minutes \<Rightarrow> py_truediv (real_of_int vc) (max elapsed_minutes (1 / 60)))
      else Inr 0)"

text \<open>The rest of \<^verbatim>\<open>analyze\<close> after the flow-window step; it reads the detector only.\<close>

definition analyze_scores ::
    "int \<Rightarrow> real \<Rightarrow> int \<Rightarrow> real \<Rightarrow> real \<Rightarrow> int \<Rightarrow> real \<Rightarrow> real option \<Rightarrow>
     CongestionDetector \<Rightarrow> error + CongestionMetrics" where
  "analyze_scores vc avg sc total_bbox_area occ fi f ts d =
     (case estimate_flow_rate vc f d of Inl e \<Rightarrow> Inl e | Inr fr \<Rightarrow>
      (case (if vc > 0 then py_truediv (real_of_int sc) (real_of_int vc) else Inr 0) of
         Inl e \<Rightarrow> Inl e | Inr ql \<Rightarrow>
      (case compute_density_score vc total_bbox_area d of Inl e \<Rightarrow> Inl e | Inr ds \<Rightarrow>
      (case compute_speed_score avg d of Inl e \<Rightarrow> Inl e | Inr ss \<Rightarrow>
      (case compute_flow_score fr 30 d of Inl e \<Rightarrow> Inl e | Inr fs \<Rightarrow>
      (case compute_queue_score sc vc d of Inl e \<Rightarrow> Inl e | Inr qs \<Rightarrow>
      (let cs = compute_congestion_score ds ss fs qs d;
           lvl = classify_congestion cs d
       in case resolve_timestamp ts fi f of Inl e \<Rightarrow> Inl e | Inr tstamp \<Rightarrow>
          Inr \<lparr>vehicle_count = vc, occupancy_ratio = occ, average_speed = avg,
                stopped_count = sc, flow_rate = fr, queue_length = ql,
                density_score = ds, speed_score = ss, flow_score = fs,
                congestion_score = cs, congestion_level = lvl,
                frame_idx = fi, timestamp = tstamp, m_roi_area = roi_area d\<rparr>)))))))"

text \<open>\<^verbatim>\<open>analyze(tracks, frame_idx, fps, timestamp)\<close> returns the metrics, or the exception
  raised, and the detector after the call.\<close>

definition analyze ::
    "VehicleTrack list \<Rightarrow> int \<Rightarrow> real \<Rightarrow> real option \<Rightarrow> CongestionDetector \<Rightarrow>
     (error + CongestionMetrics) \<times> CongestionDetector" where
  "analyze trks fi f ts d =
     (let vc = int (length trks)
      in if vc = 0
         then ((case resolve_timestamp ts fi f of
                  Inl e \<Rightarrow> Inl e
                | Inr tstamp \<Rightarrow>
                    Inr \<lparr>vehicle_count = 0, occupancy_ratio = 0, average_speed = 0,
                          stopped_count = 0, flow_rate = 0, queue_length = 0,
                          density_score = 0, speed_score = 0, flow_score = 0,
                          congestion_score = 0, congestion_level = FREE_FLOW,
                          frame_idx = fi, timestamp = tstamp, m_roi_area = roi_area d\<rparr>), d)
         else (case track_metrics (stopped_threshold d) trks ([], 0, 0) of
                 (speeds, sc, total_bbox_area) \<Rightarrow>
                   (let avg = (if speeds = [] then 0 else np_mean speeds)
                    in case py_truediv total_bbox_area (roi_area d) of
                         Inl e \<Rightarrow> (Inl e, d)
                       | Inr occ \<Rightarrow>
                           (let d1 = advance_flow_window f d
                            in (analyze_scores vc avg sc total_bbox_area occ fi f ts d1, d1)))))"

section \<open>Well-formed manager states\<close>

text \<open>The states a manager reaches from \<^verbatim>\<open>TrackManager(...)\<close>: the keys of \<^verbatim>\<open>tracks\<close> are
  distinct (it is a dict), \<^verbatim>\<open>track_ages\<close> has the same keys, every track is stored under
  its own id, and a manager that holds a track has a non-negative \<^verbatim>\<open>max_history\<close>.\<close>

definition manager_inv :: "TrackManager \<Rightarrow> bool" where
  "manager_inv m \<longleftrightarrow>
     distinct (map fst (tracks m)) \<and>
     set (map fst (track_ages m)) = set (map fst (tracks m)) \<and>
     list_all (\<lambda>(k, t). track_id t = k) (tracks m) \<and>
     (tracks m = [] \<or> 0 \<le> mgr_max_history m)"

section \<open>History lengths of a track\<close>

lemma deque_append_len:
  "deque_len d \<le> maxlen d \<Longrightarrow>
   deque_len (deque_append x d) = min (Suc (deque_len d)) (maxlen d)"
  by (auto simp: deque_append_def deque_len_def Let_def)

lemma deque_append_maxlen [simp]: "maxlen (deque_append x d) = maxlen d"
  by (simp add: deque_append_def Let_def)

lemma track_updates_snoc:
  "track_updates (obs @ [ob]) t = track_updates [ob] (track_updates obs t)"
  by (induction obs t rule: track_updates.induct) auto

lemma update_maxlen:
  "maxlen (centroids (VehicleTrack_update b f cid cname t)) = maxlen (centroids t)"
  "maxlen (speeds_px (VehicleTrack_update b f cid cname t)) = maxlen (speeds_px t)"
  by (cases cid; cases cname; cases "first_frame t"; simp add: VehicleTrack_update_def Let_def)+

lemma update_centroids_items:
  "items (centroids (VehicleTrack_update b f cid cname t)) =
     items (deque_append (compute_centroid b) (centroids t))"
  by (cases cid; cases cname; cases "first_frame t"; simp add: VehicleTrack_update_def Let_def)

lemma update_centroids_len:
  "deque_len (centroids t) \<le> maxlen (centroids t) \<Longrightarrow>
   deque_len (centroids (VehicleTrack_update b f cid cname t)) =
     min (Suc (deque_len (centroids t))) (maxlen (centroids t))"
  using deque_append_len [of "centroids t" "compute_centroid b"]
  by (simp add: deque_len_def update_centroids_items)

lemma update_speeds_len:
  "deque_len (centroids t) \<le> maxlen (centroids t) \<Longrightarrow>
   deque_len (speeds_px t) \<le> maxlen (speeds_px t) \<Longrightarrow>
   deque_len (speeds_px (VehicleTrack_update b f cid cname t)) =
     (if 2 \<le> min (Suc (deque_len (centroids t))) (maxlen (centroids t))
      then min (Suc (deque_len (speeds_px t))) (maxlen (speeds_px t))
      else deque_len (speeds_px t))"
  using deque_append_len [of "centroids t" "compute_centroid b"]
        deque_append_len [of "speeds_px t"]
  by (cases cid; cases cname; cases "first_frame t"; simp add: VehicleTrack_update_def Let_def)

lemma init_lens:
  "VehicleTrack_init tid mh = Inr t0 \<Longrightarrow>
     maxlen (centroids t0) = nat mh \<and> maxlen (speeds_px t0) = nat mh \<and>
     deque_len (centroids t0) = 0 \<and> deque_len (speeds_px t0) = 0"
  by (auto simp: VehicleTrack_init_def deque_len_def split: if_splits)

lemma track_updates_lens:
  assumes "VehicleTrack_init tid mh = Inr t0"
  shows "maxlen (centroids (track_updates obs t0)) = nat mh \<and>
         maxlen (speeds_px (track_updates obs t0)) = nat mh \<and>
         deque_len (centroids (track_updates obs t0)) = min (length obs) (nat mh) \<and>
         deque_len (speeds_px (track_updates obs t0)) =
           (if nat mh \<le> 1 then 0 else min (length obs - 1) (nat mh))"
proof (induction obs rule: rev_induct)
  case Nil
  show ?case using init_lens [OF assms] by simp
next
  case (snoc ob obs)
  obtain b f cid cname where ob: "ob = (b, f, cid, cname)" by (cases ob) auto
  let ?t = "track_updates obs t0"
  have step: "track_updates (obs @ [ob]) t0 = VehicleTrack_update b f cid cname ?t"
    by (simp add: track_updates_snoc ob)
  have c: "deque_len (centroids ?t) \<le> maxlen (centroids ?t)"
    and s: "deque_len (speeds_px ?t) \<le> maxlen (speeds_px ?t)"
    using snoc.IH by auto
  have ml: "maxlen (centroids ?t) = nat mh" "maxlen (speeds_px ?t) = nat mh"
    and lc: "deque_len (centroids ?t) = min (length obs) (nat mh)"
    and ls: "deque_len (speeds_px ?t) = (if nat mh \<le> 1 then 0 else min (length obs - 1) (nat mh))"
    using snoc.IH by auto
  have lc': "deque_len (centroids (VehicleTrack_update b f cid cname ?t)) =
               min (length (obs @ [ob])) (nat mh)"
    unfolding update_centroids_len [OF c] ml lc by simp
  have ls': "deque_len (speeds_px (VehicleTrack_update b f cid cname ?t)) =
               (if nat mh \<le> 1 then 0 else min (length (obs @ [ob]) - 1) (nat mh))"
    unfolding update_speeds_len [OF c s] ml lc ls by (cases obs) auto
  show ?case
    unfolding step using ml lc' ls' by (simp add: update_maxlen)
qed


text \<open>
  Claim C1 (as amended). A track built with capacity \<^verbatim>\<open>max_history\<close> that receives \<open>N\<close>
  \<^verbatim>\<open>update\<close> calls holds \<open>min N max_history\<close> centroids. Its \<^verbatim>\<open>speeds_px\<close> history holds
  \<open>min (N - 1) max_history\<close> samples (none for a capacity below \<open>2\<close>): the first observation
  gives no sample and each later one appends one. Hence the length of the speed history is
  \<open>max 0 (len centroids - 1)\<close> as long as \<open>N \<le> max_history\<close>; once \<open>N\<close> exceeds a capacity
  of at least \<open>2\<close>, both histories are full and have the same length \<open>max_history\<close>.
\<close>

theorem pixel_speed_history_length:
  assumes "VehicleTrack_init tid mh = Inr t0"
  shows "deque_len (centroids (track_updates obs t0)) = min (length obs) (nat mh) \<and>
         deque_len (speeds_px (track_updates obs t0)) =
           (if nat mh \<le> 1 then 0 else min (length obs - 1) (nat mh)) \<and>
         (length obs \<le> nat mh \<longrightarrow>
            int (deque_len (speeds_px (track_updates obs t0))) =
              max 0 (int (deque_len (centroids (track_updates obs t0))) - 1)) \<and>
         (nat mh < length obs \<and> 2 \<le> mh \<longrightarrow>
            deque_len (speeds_px (track_updates obs t0)) = nat mh \<and>
            deque_len (centroids (track_updates obs t0)) = nat mh)"
proof -
  let ?t = "track_updates obs t0"
  have c: "deque_len (centroids ?t) = min (length obs) (nat mh)"
    and s: "deque_len (speeds_px ?t) = (if nat mh \<le> 1 then 0 else min (length obs - 1) (nat mh))"
    using track_updates_lens [OF assms, of obs] by auto
  have under: "int (deque_len (speeds_px ?t)) = max 0 (int (deque_len (centroids ?t)) - 1)"
    if "length obs \<le> nat mh"
    using that unfolding c s by (cases "length obs") auto
  have over: "deque_len (speeds_px ?t) = nat mh \<and> deque_len (centroids ?t) = nat mh"
    if "nat mh < length obs \<and> 2 \<le> mh"
    using that unfolding c s by auto
  show ?thesis using c s under over by blast
qed

theorem pixel_speed_history_length_witness:
  "VehicleTrack_init 7 2 = Inr (projr (VehicleTrack_init 7 2)) \<and>
   length ([((0, 0, 10, 10), 0, None, None), ((10, 0, 20, 10), 1, None, None)]
             :: observation list) \<le> nat 2 \<and>
   int (deque_len (speeds_px (track_updates
          [((0, 0, 10, 10), 0, None, None), ((10, 0, 20, 10), 1, None, None)]
          (projr (VehicleTrack_init 7 2))))) = 1 \<and>
   nat 2 < length ([((0, 0, 10, 10), 0, None, None), ((10, 0, 20, 10), 1, None, None),
                    ((20, 0, 30, 10), 2, None, None)] :: observation list) \<and>
   (2::int) \<le> 2 \<and>
   deque_len (centroids (track_updates
          [((0, 0, 10, 10), 0, None, None), ((10, 0, 20, 10), 1, None, None),
           ((20, 0, 30, 10), 2, None, None)]
          (projr (VehicleTrack_init 7 2)))) = 2"
proof -
  have i: "VehicleTrack_init 7 2 = Inr (projr (VehicleTrack_init 7 2))"
    by (simp add: VehicleTrack_init_def)
  show ?thesis
    using i
      pixel_speed_history_length [OF i,
        of "[((0, 0, 10, 10), 0, None, None), ((10, 0, 20, 10), 1, None, None)]"]
      pixel_speed_history_length [OF i,
        of "[((0, 0, 10, 10), 0, None, None), ((10, 0, 20, 10), 1, None, None),
             ((20, 0, 30, 10), 2, None, None)]"]
    by simp
qed

text \<open>
  Claim C1 as stated fails once the histories are full: with capacity \<open>2\<close> and three
  observations both histories have length \<open>2\<close>, not \<open>2\<close> and \<open>1\<close>.
\<close>

theorem pixel_speed_history_length_counterexample:
  "\<not> isl (VehicleTrack_init 7 2) \<and>
   deque_len (centroids (track_updates
      [((0, 0, 10, 10), 0, None, None), ((10, 0, 20, 10), 1, None, None),
       ((20, 0, 30, 10), 2, None, None)]
      (projr (VehicleTrack_init 7 2)))) = 2 \<and>
   deque_len (speeds_px (track_updates
      [((0, 0, 10, 10), 0, None, None), ((10, 0, 20, 10), 1, None, None),
       ((20, 0, 30, 10), 2, None, None)]
      (projr (VehicleTrack_init 7 2)))) = 2 \<and>
   int (deque_len (speeds_px (track_updates
      [((0, 0, 10, 10), 0, None, None), ((10, 0, 20, 10), 1, None, None),
       ((20, 0, 30, 10), 2, None, None)]
      (projr (VehicleTrack_init 7 2))))) \<noteq>
   max 0 (int (deque_len (centroids (track_updates
      [((0, 0, 10, 10), 0, None, None), ((10, 0, 20, 10), 1, None, None),
       ((20, 0, 30, 10), 2, None, None)]
      (projr (VehicleTrack_init 7 2))))) - 1)"
proof -
  have i: "VehicleTrack_init 7 2 = Inr (projr (VehicleTrack_init 7 2))"
    by (simp add: VehicleTrack_init_def)
  show ?thesis
    using track_updates_lens [OF i,
        of "[((0, 0, 10, 10), 0, None, None), ((10, 0, 20, 10), 1, None, None),
             ((20, 0, 30, 10), 2, None, None)]"]
    by (simp add: VehicleTrack_init_def)
qed

section \<open>The outlier gate of the speed smoother\<close>

lemma exact_std_const3: "exact_std [10, 10, 10] = 0"
  by (simp add: exact_std_def np_mean_def)

lemma np_mean_9_10_11: "np_mean [9, 10, 11] = 10"
  by (simp add: np_mean_def)

lemma exact_std_9_10_11: "exact_std [9, 10, 11] = sqrt (2 / 3)"
  by (simp add: exact_std_def np_mean_def)

lemma z_score_9_10_11: "3 < \<bar>(1000 - 10) / sqrt (2 / 3)\<bar>"
proof -
  have "sqrt (2 / 3) < sqrt 1"
    by (rule real_sqrt_less_mono) simp
  then have lt: "sqrt (2 / 3) < 1" by simp
  have pos: "0 < sqrt (2 / 3)" by simp
  have "3 * sqrt (2 / 3) < 990" using lt by linarith
  then have "3 < 990 / sqrt (2 / 3)" using pos by (simp add: pos_less_divide_eq)
  then show ?thesis by simp
qed

text \<open>
  Claim C2 (as amended). For the mean and the standard deviation that numpy computes
  (\<open>mean_f\<close>, \<open>std_f\<close>), \<^verbatim>\<open>add_speed(raw)\<close> appends the window mean in place of \<open>raw\<close> exactly
  when the window holds more than \<open>2\<close> samples, the computed standard deviation is positive
  and the z-score of \<open>raw\<close> exceeds the threshold; otherwise it appends \<open>raw\<close> unchanged. The
  value returned is the computed mean of the new window. Whenever the computed deviation
  of the window \<open>[10, 10, 10]\<close> is \<open>0\<close> (as it is in numpy), \<^verbatim>\<open>add_speed(1000)\<close> appends
  \<open>1000\<close> and returns the mean of \<open>[10, 10, 10, 1000]\<close>, which is \<open>257.5\<close>. Whenever the
  computed deviation of a window is positive and the z-score is above the threshold, as
  for \<open>[9, 10, 11]\<close> with mean \<open>10\<close>, \<^verbatim>\<open>add_speed(1000)\<close> appends the mean \<open>10\<close> and returns
  the mean of \<open>[9, 10, 11, 10]\<close>.
\<close>

theorem add_speed_outlier_gate:
  "snd (add_speed mean_f std_f speed s) =
     s\<lparr>speed_history :=
         deque_append
           (if 2 < deque_len (speed_history s) \<and> 0 < std_f (items (speed_history s)) \<and>
               outlier_threshold s <
                 \<bar>(speed - mean_f (items (speed_history s))) / std_f (items (speed_history s))\<bar>
            then mean_f (items (speed_history s)) else speed)
           (speed_history s)\<rparr> \<and>
   (items (speed_history (snd (add_speed mean_f std_f speed s))) \<noteq> [] \<longrightarrow>
      fst (add_speed mean_f std_f speed s) =
        Some (mean_f (items (speed_history (snd (add_speed mean_f std_f speed s)))))) \<and>
   (std_f [10, 10, 10] = 0 \<and> mean_f [10, 10, 10, 1000] = 515 / 2 \<longrightarrow>
      add_speed mean_f std_f 1000
        \<lparr>window_size = 5, outlier_threshold = 3,
         speed_history = \<lparr>maxlen = 5, items = [10, 10, 10]\<rparr>\<rparr> =
        (Some (515 / 2), \<lparr>window_size = 5, outlier_threshold = 3,
                          speed_history = \<lparr>maxlen = 5, items = [10, 10, 10, 1000]\<rparr>\<rparr>)) \<and>
   (mean_f [9, 10, 11] = 10 \<and> 0 < std_f [9, 10, 11] \<and>
    3 < \<bar>(1000 - 10) / std_f [9, 10, 11]\<bar> \<and> mean_f [9, 10, 11, 10] = 10 \<longrightarrow>
      add_speed mean_f std_f 1000
        \<lparr>window_size = 5, outlier_threshold = 3,
         speed_history = \<lparr>maxlen = 5, items = [9, 10, 11]\<rparr>\<rparr> =
        (Some 10, \<lparr>window_size = 5, outlier_threshold = 3,
                   speed_history = \<lparr>maxlen = 5, items = [9, 10, 11, 10]\<rparr>\<rparr>))"
proof -
  have a: "snd (add_speed mean_f std_f speed s) =
     s\<lparr>speed_history :=
         deque_append
           (if 2 < deque_len (speed_history s) \<and> 0 < std_f (items (speed_history s)) \<and>
               outlier_threshold s <
                 \<bar>(speed - mean_f (items (speed_history s))) / std_f (items (speed_history s))\<bar>
            then mean_f (items (speed_history s)) else speed)
           (speed_history s)\<rparr>"
    by (simp add: add_speed_def Let_def)
  have b: "items (speed_history (snd (add_speed mean_f std_f speed s))) \<noteq> [] \<longrightarrow>
      fst (add_speed mean_f std_f speed s) =
        Some (mean_f (items (speed_history (snd (add_speed mean_f std_f speed s)))))"
    by (simp add: add_speed_def Let_def)
  have c: "std_f [10, 10, 10] = 0 \<and> mean_f [10, 10, 10, 1000] = 515 / 2 \<longrightarrow>
      add_speed mean_f std_f 1000
        \<lparr>window_size = 5, outlier_threshold = 3,
         speed_history = \<lparr>maxlen = 5, items = [10, 10, 10]\<rparr>\<rparr> =
        (Some (515 / 2), \<lparr>window_size = 5, outlier_threshold = 3,
                          speed_history = \<lparr>maxlen = 5, items = [10, 10, 10, 1000]\<rparr>\<rparr>)"
    by (simp add: add_speed_def Let_def deque_len_def deque_append_def)
  have d: "mean_f [9, 10, 11] = 10 \<and> 0 < std_f [9, 10, 11] \<and>
    3 < \<bar>(1000 - 10) / std_f [9, 10, 11]\<bar> \<and> mean_f [9, 10, 11, 10] = 10 \<longrightarrow>
      add_speed mean_f std_f 1000
        \<lparr>window_size = 5, outlier_threshold = 3,
         speed_history = \<lparr>maxlen = 5, items = [9, 10, 11]\<rparr>\<rparr> =
        (Some 10, \<lparr>window_size = 5, outlier_threshold = 3,
                   speed_history = \<lparr>maxlen = 5, items = [9, 10, 11, 10]\<rparr>\<rparr>)"
  proof (intro impI, elim conjE)
    assume m: "mean_f [9, 10, 11] = 10" and p: "0 < std_f [9, 10, 11]"
      and z: "3 < \<bar>(1000 - 10) / std_f [9, 10, 11]\<bar>" and m': "mean_f [9, 10, 11, 10] = 10"
    have z': "3 < \<bar>(1000 - mean_f [9, 10, 11]) / std_f [9, 10, 11]\<bar>"
      using z unfolding m .
    show "add_speed mean_f std_f 1000
        \<lparr>window_size = 5, outlier_threshold = 3,
         speed_history = \<lparr>maxlen = 5, items = [9, 10, 11]\<rparr>\<rparr> =
        (Some 10, \<lparr>window_size = 5, outlier_threshold = 3,
                   speed_history = \<lparr>maxlen = 5, items = [9, 10, 11, 10]\<rparr>\<rparr>)"
      unfolding add_speed_def Let_def deque_len_def deque_append_def
      using p z' by (simp add: m m')
  qed
  show ?thesis using a b c d by blast
qed

theorem add_speed_outlier_gate_witness:
  "exact_std [10, 10, 10] = 0 \<and> np_mean [10, 10, 10, 1000] = 515 / 2 \<and>
   add_speed np_mean exact_std 1000
     \<lparr>window_size = 5, outlier_threshold = 3,
      speed_history = \<lparr>maxlen = 5, items = [10, 10, 10]\<rparr>\<rparr> =
     (Some (515 / 2), \<lparr>window_size = 5, outlier_threshold = 3,
                       speed_history = \<lparr>maxlen = 5, items = [10, 10, 10, 1000]\<rparr>\<rparr>) \<and>
   np_mean [9, 10, 11] = 10 \<and> 0 < exact_std [9, 10, 11] \<and>
   3 < \<bar>(1000 - 10) / exact_std [9, 10, 11]\<bar> \<and> np_mean [9, 10, 11, 10] = 10 \<and>
   add_speed np_mean exact_std 1000
     \<lparr>window_size = 5, outlier_threshold = 3,
      speed_history = \<lparr>maxlen = 5, items = [9, 10, 11]\<rparr>\<rparr> =
     (Some 10, \<lparr>window_size = 5, outlier_threshold = 3,
                speed_history = \<lparr>maxlen = 5, items = [9, 10, 11, 10]\<rparr>\<rparr>)"
proof -
  have h1: "exact_std [10, 10, 10] = 0" "np_mean [10, 10, 10, 1000] = 515 / 2"
    by (simp_all add: exact_std_const3 np_mean_def)
  have h2: "np_mean [9, 10, 11] = 10" "0 < exact_std [9, 10, 11]"
    "3 < \<bar>(1000 - 10) / exact_std [9, 10, 11]\<bar>" "np_mean [9, 10, 11, 10] = 10"
    using z_score_9_10_11 by (simp_all add: exact_std_9_10_11 np_mean_def)
  show ?thesis
    using h1 h2 add_speed_outlier_gate [of np_mean exact_std 1000
      "\<lparr>window_size = 5, outlier_threshold = 3,
        speed_history = \<lparr>maxlen = 5, items = [10, 10, 10]\<rparr>\<rparr>"]
    by blast
qed

text \<open>
  Claim C2 as stated fails at its own input. On the windows \<open>[10, 10, 10]\<close> and
  \<open>[10, 10, 10, 1000]\<close> every intermediate value of numpy's mean and deviation is a float
  without rounding, so numpy returns the exact values: a default smoother fed \<open>10, 10, 10\<close>
  holds a window of standard deviation \<open>0\<close>, the gate is skipped, and \<^verbatim>\<open>add_speed(1000)\<close>
  returns \<open>257.5\<close> with \<open>1000\<close> in the window.
\<close>

theorem add_speed_outlier_gate_counterexample:
  "SpeedSmoother_init 5 3 = Inr \<lparr>window_size = 5, outlier_threshold = 3,
                                speed_history = \<lparr>maxlen = 5, items = []\<rparr>\<rparr> \<and>
   snd (add_speed np_mean exact_std 10 (snd (add_speed np_mean exact_std 10
     (snd (add_speed np_mean exact_std 10
       \<lparr>window_size = 5, outlier_threshold = 3,
        speed_history = \<lparr>maxlen = 5, items = []\<rparr>\<rparr>))))) =
     \<lparr>window_size = 5, outlier_threshold = 3,
      speed_history = \<lparr>maxlen = 5, items = [10, 10, 10]\<rparr>\<rparr> \<and>
   exact_std [10, 10, 10] = 0 \<and>
   add_speed np_mean exact_std 1000
     \<lparr>window_size = 5, outlier_threshold = 3,
      speed_history = \<lparr>maxlen = 5, items = [10, 10, 10]\<rparr>\<rparr> =
     (Some (515 / 2), \<lparr>window_size = 5, outlier_threshold = 3,
                       speed_history = \<lparr>maxlen = 5, items = [10, 10, 10, 1000]\<rparr>\<rparr>)"
  by (simp add: SpeedSmoother_init_def deque_new_def add_speed_def Let_def deque_len_def
      deque_append_def exact_std_const3 np_mean_def)

section \<open>Construction of the speed estimators\<close>

text \<open>
  Claim C3 (as amended). Constructing either estimator with \<^verbatim>\<open>fps = 0\<close> fails with
  \<^verbatim>\<open>ZeroDivisionError\<close> (from \<^verbatim>\<open>1.0 / fps\<close>). For every other \<^verbatim>\<open>fps\<close>, negative ones
  included, \<^verbatim>\<open>PixelSpeedEstimator\<close> is constructed, and so is \<^verbatim>\<open>HomographySpeedEstimator\<close>
  when a point set is missing or when the homography computation on the points does not
  raise.
\<close>

theorem estimator_construction:
  "PixelSpeedEstimator_init f ppm =
     (if f = 0 then Inl ZeroDivisionError
      else Inr \<lparr>fps = f, frame_time = 1 / f, pixels_per_meter = ppm\<rparr>) \<and>
   HomographySpeedEstimator_init findHomography f None wp =
     (if f = 0 then Inl ZeroDivisionError
      else Inr \<lparr>fps = f, frame_time = 1 / f, homography_matrix = None\<rparr>) \<and>
   HomographySpeedEstimator_init findHomography f ip None =
     (if f = 0 then Inl ZeroDivisionError
      else Inr \<lparr>fps = f, frame_time = 1 / f, homography_matrix = None\<rparr>) \<and>
   HomographySpeedEstimator_init findHomography f (Some ipts) (Some wpts) =
     (if f = 0 then Inl ZeroDivisionError
      else (case findHomography ipts wpts of
              Inl e \<Rightarrow> Inl e
            | Inr H \<Rightarrow> Inr \<lparr>fps = f, frame_time = 1 / f, homography_matrix = H\<rparr>))"
  by (cases ip)
     (auto simp: PixelSpeedEstimator_init_def HomographySpeedEstimator_init_def
        SpeedEstimator_init_def py_truediv_def Let_def split: sum.splits option.splits)

theorem estimator_construction_witness:
  "PixelSpeedEstimator_init 30 20 = Inr \<lparr>fps = 30, frame_time = 1 / 30, pixels_per_meter = 20\<rparr> \<and>
   PixelSpeedEstimator_init 0 20 = Inl ZeroDivisionError \<and>
   HomographySpeedEstimator_init (\<lambda>ip wp. Inl Cv2Error :: error + real list list option)
       0 None None = Inl ZeroDivisionError \<and>
   HomographySpeedEstimator_init (\<lambda>ip wp. Inl Cv2Error :: error + real list list option)
       30 (Some [(0, 0)]) (Some [(0, 0)]) = Inl Cv2Error"
  using estimator_construction [of 30 20 "\<lambda>ip wp. Inl Cv2Error :: error + real list list option"
          None None "[(0, 0)]" "[(0, 0)]"]
        estimator_construction [of 0 20 "\<lambda>ip wp. Inl Cv2Error :: error + real list list option"
          None None "[(0, 0)]" "[(0, 0)]"]
  by simp

text \<open>
  Claim C3 as stated fails for a negative \<^verbatim>\<open>fps\<close>: \<^verbatim>\<open>PixelSpeedEstimator(fps=-30)\<close> is
  constructed.
\<close>

theorem estimator_negative_fps_counterexample:
  "PixelSpeedEstimator_init (- 30) 20 =
     Inr \<lparr>fps = - 30, frame_time = - (1 / 30), pixels_per_meter = 20\<rparr>"
  by (simp add: PixelSpeedEstimator_init_def SpeedEstimator_init_def py_truediv_def)

section \<open>Validation of the weights\<close>

lemma default_detector_init:
  "CongestionDetector_init (640 * 480) 50 100 2 0.35 0.35 0.20 0.10 = Inr default_detector"
  by (simp add: CongestionDetector_init_def default_detector_def np_isclose_def)

text \<open>
  Claim C5 (as amended). The constructor of \<^verbatim>\<open>CongestionDetector\<close> raises \<^verbatim>\<open>ValueError\<close>
  exactly when the sum of the four weights differs from \<open>1.0\<close> by more than the tolerance of
  \<^verbatim>\<open>np.isclose\<close>, \<open>1e-8 + 1e-5\<close>; the weights \<open>0.4, 0.4, 0.4, 0.1\<close> are rejected. Otherwise,
  and so whenever the sum is \<open>1.0\<close>, the detector is built with the weights stored as they
  were passed (no renormalisation).
\<close>

theorem weights_validation:
  "CongestionDetector_init ra mv ms st dw sw fw qw =
     (if \<bar>dw + sw + fw + qw - 1\<bar> \<le> 1 / 10 ^ 8 + 1 / 10 ^ 5
      then Inr \<lparr>roi_area = ra, max_vehicles = mv, max_speed = ms, stopped_threshold = st,
                density_weight = dw, speed_weight = sw, flow_weight = fw, queue_weight = qw,
                vehicle_entry_count = 0, flow_window_frames = 0, flow_window_duration = 60,
                thresholds = default_thresholds\<rparr>
      else Inl ValueError) \<and>
   (dw + sw + fw + qw = 1 \<longrightarrow>
      CongestionDetector_init ra mv ms st dw sw fw qw =
        Inr \<lparr>roi_area = ra, max_vehicles = mv, max_speed = ms, stopped_threshold = st,
             density_weight = dw, speed_weight = sw, flow_weight = fw, queue_weight = qw,
             vehicle_entry_count = 0, flow_window_frames = 0, flow_window_duration = 60,
             thresholds = default_thresholds\<rparr>) \<and>
   CongestionDetector_init ra mv ms st 0.4 0.4 0.4 0.1 = Inl ValueError"
  by (simp add: CongestionDetector_init_def np_isclose_def)

theorem weights_validation_witness:
  "(0.35 :: real) + 0.35 + 0.2 + 0.1 = 1 \<and>
   CongestionDetector_init (640 * 480) 50 100 2 0.35 0.35 0.2 0.1 =
     Inr \<lparr>roi_area = 640 * 480, max_vehicles = 50, max_speed = 100, stopped_threshold = 2,
          density_weight = 0.35, speed_weight = 0.35, flow_weight = 0.2, queue_weight = 0.1,
          vehicle_entry_count = 0, flow_window_frames = 0, flow_window_duration = 60,
          thresholds = default_thresholds\<rparr>"
  using weights_validation [of "640 * 480" 50 100 2 "0.35" "0.35" "0.2" "0.1"]
  by simp

text \<open>
  Claim C5 as stated fails inside the tolerance: the weights \<open>0.35, 0.35, 0.2, 0.100001\<close> do
  not sum to \<open>1.0\<close> and the detector is constructed.
\<close>

theorem weights_tolerance_counterexample:
  "(0.35 :: real) + 0.35 + 0.2 + 0.100001 \<noteq> 1 \<and>
   CongestionDetector_init (640 * 480) 50 100 2 0.35 0.35 0.2 0.100001 =
     Inr \<lparr>roi_area = 640 * 480, max_vehicles = 50, max_speed = 100, stopped_threshold = 2,
          density_weight = 0.35, speed_weight = 0.35, flow_weight = 0.2, queue_weight = 0.100001,
          vehicle_entry_count = 0, flow_window_frames = 0, flow_window_duration = 60,
          thresholds = default_thresholds\<rparr>"
  by (simp add: CongestionDetector_init_def np_isclose_def)

section \<open>analyze on an empty track list\<close>

text \<open>
  Claim C6 (as amended). With an empty track list and either \<^verbatim>\<open>fps \<noteq> 0\<close> or a non-zero
  \<^verbatim>\<open>timestamp\<close> argument, \<^verbatim>\<open>analyze\<close> returns the snapshot whose counts and scores are all
  \<open>0\<close> and whose level is \<^verbatim>\<open>FREE_FLOW\<close>, for every frame index. With \<^verbatim>\<open>fps = 0\<close> and no
  (or a zero) timestamp, the default timestamp \<^verbatim>\<open>frame_idx / fps\<close> raises
  \<^verbatim>\<open>ZeroDivisionError\<close>.
\<close>

theorem analyze_empty:
  "(f \<noteq> 0 \<or> (\<exists>t. ts = Some t \<and> t \<noteq> 0) \<longrightarrow>
      analyze [] fi f ts d =
        (Inr \<lparr>vehicle_count = 0, occupancy_ratio = 0, average_speed = 0, stopped_count = 0,
              flow_rate = 0, queue_length = 0, density_score = 0, speed_score = 0,
              flow_score = 0, congestion_score = 0, congestion_level = FREE_FLOW,
              frame_idx = fi,
              timestamp = (case ts of
                             Some t \<Rightarrow> if t \<noteq> 0 then t else real_of_int fi / f
                           | None \<Rightarrow> real_of_int fi / f),
              m_roi_area = roi_area d\<rparr>, d)) \<and>
   (f = 0 \<and> (ts = None \<or> ts = Some 0) \<longrightarrow>
      analyze [] fi f ts d = (Inl ZeroDivisionError, d))"
  by (auto simp: analyze_def resolve_timestamp_def py_truediv_def split: option.splits)

theorem analyze_empty_witness:
  "(30::real) \<noteq> 0 \<and>
   analyze [] 90 30 None default_detector =
     (Inr \<lparr>vehicle_count = 0, occupancy_ratio = 0, average_speed = 0, stopped_count = 0,
           flow_rate = 0, queue_length = 0, density_score = 0, speed_score = 0,
           flow_score = 0, congestion_score = 0, congestion_level = FREE_FLOW,
           frame_idx = 90, timestamp = 3, m_roi_area = 640 * 480\<rparr>, default_detector) \<and>
   (0::real) = 0 \<and> (None :: real option) = None \<and>
   analyze [] 90 0 None default_detector = (Inl ZeroDivisionError, default_detector)"
  using analyze_empty [of 30 None 90 default_detector]
        analyze_empty [of 0 None 90 default_detector]
  by (simp add: default_detector_def)

text \<open>
  Claim C6 as stated fails for \<^verbatim>\<open>fps = 0\<close>: \<^verbatim>\<open>analyze([], 5, fps=0)\<close> raises.
\<close>

theorem analyze_empty_zero_fps_counterexample:
  "analyze [] 5 0 None default_detector = (Inl ZeroDivisionError, default_detector)"
  by (simp add: analyze_def resolve_timestamp_def py_truediv_def)

section \<open>Range of the sub-scores\<close>

lemma mean2_range:
  "0 \<le> a \<Longrightarrow> a \<le> 1 \<Longrightarrow> 0 \<le> b \<Longrightarrow> b \<le> 1 \<Longrightarrow> 0 \<le> (a + b) / 2 \<and> (a + b) / 2 \<le> (1::real)"
  by auto

lemma density_score_range:
  assumes "0 \<le> vc" "0 \<le> area" "0 < max_vehicles d" "0 < roi_area d"
  shows "\<exists>x. compute_density_score vc area d = Inr x \<and> 0 \<le> x \<and> x \<le> 1"
proof -
  let ?q1 = "real_of_int vc / real_of_int (max_vehicles d)"
  let ?q2 = "area / roi_area d"
  have q1: "0 \<le> ?q1" and q2: "0 \<le> ?q2" using assms by simp_all
  have eq: "compute_density_score vc area d = Inr ((min ?q1 1 + min ?q2 1) / 2)"
    using assms by (simp add: compute_density_score_def py_truediv_def Let_def)
  have "0 \<le> min ?q1 1" "min ?q1 1 \<le> 1" "0 \<le> min ?q2 1" "min ?q2 1 \<le> 1"
    using q1 q2 by simp_all
  then have "0 \<le> (min ?q1 1 + min ?q2 1) / 2 \<and> (min ?q1 1 + min ?q2 1) / 2 \<le> 1"
    by (rule mean2_range)
  with eq show ?thesis by blast
qed

lemma inverted_ratio_range:
  assumes "0 < a" "0 < (b::real)"
  shows "0 \<le> 1 - min (a / b) 1 \<and> 1 - min (a / b) 1 \<le> 1"
proof -
  have "0 \<le> a / b" using assms by simp
  then have "0 \<le> min (a / b) 1" "min (a / b) 1 \<le> 1" by simp_all
  then show ?thesis by simp
qed

lemma speed_score_range:
  assumes "0 < max_speed d"
  shows "\<exists>x. compute_speed_score avg d = Inr x \<and> 0 \<le> x \<and> x \<le> 1"
proof (cases "avg \<le> 0")
  case True
  then show ?thesis by (simp add: compute_speed_score_def)
next
  case False
  then have "compute_speed_score avg d = Inr (1 - min (avg / max_speed d) 1)"
    using assms by (simp add: compute_speed_score_def py_truediv_def Let_def)
  then show ?thesis using inverted_ratio_range [of avg "max_speed d"] False assms by simp
qed

lemma flow_score_range:
  assumes "0 < expected_flow"
  shows "\<exists>x. compute_flow_score fr expected_flow d = Inr x \<and> 0 \<le> x \<and> x \<le> 1"
proof (cases "fr \<le> 0")
  case True
  then show ?thesis by (simp add: compute_flow_score_def)
next
  case False
  then have "compute_flow_score fr expected_flow d = Inr (1 - min (fr / expected_flow) 1)"
    using assms by (simp add: compute_flow_score_def py_truediv_def Let_def)
  then show ?thesis using inverted_ratio_range [of fr expected_flow] False assms by simp
qed

lemma queue_score_range:
  assumes "0 \<le> sc" "sc \<le> vc"
  shows "\<exists>x. compute_queue_score sc vc d = Inr x \<and> 0 \<le> x \<and> x \<le> 1"
proof (cases "vc = 0")
  case True
  then show ?thesis by (simp add: compute_queue_score_def)
next
  case False
  then have pos: "0 < real_of_int vc" using assms by simp
  have "compute_queue_score sc vc d = Inr (real_of_int sc / real_of_int vc)"
    using False by (simp add: compute_queue_score_def py_truediv_def)
  moreover have "0 \<le> real_of_int sc / real_of_int vc" using assms pos by simp
  moreover have "real_of_int sc / real_of_int vc \<le> 1" using assms pos by simp
  ultimately show ?thesis by blast
qed

text \<open>
  Claim C7 (as amended). For non-negative inputs (vehicle count, area, average speed, flow
  rate, and a stopped count between \<open>0\<close> and the vehicle count) and positive normalisers
  (\<^verbatim>\<open>max_vehicles\<close>, \<^verbatim>\<open>roi_area\<close>, \<^verbatim>\<open>max_speed\<close> of the detector and the \<^verbatim>\<open>expected_flow\<close>
  argument, as in the defaults), each of the four sub-score functions returns a value in
  \<open>[0, 1]\<close>.
\<close>

theorem sub_scores_in_unit_interval:
  assumes "0 \<le> vc" "0 \<le> area" "0 \<le> avg" "0 \<le> fr" "0 \<le> sc" "sc \<le> vc"
    and "0 < max_vehicles d" "0 < roi_area d" "0 < max_speed d" "0 < expected_flow"
  shows "(\<exists>x. compute_density_score vc area d = Inr x \<and> 0 \<le> x \<and> x \<le> 1) \<and>
         (\<exists>x. compute_speed_score avg d = Inr x \<and> 0 \<le> x \<and> x \<le> 1) \<and>
         (\<exists>x. compute_flow_score fr expected_flow d = Inr x \<and> 0 \<le> x \<and> x \<le> 1) \<and>
         (\<exists>x. compute_queue_score sc vc d = Inr x \<and> 0 \<le> x \<and> x \<le> 1)"
  using density_score_range [of vc area d] speed_score_range [of d avg]
    flow_score_range [of expected_flow fr d] queue_score_range [of sc vc d] assms
  by blast

theorem sub_scores_in_unit_interval_witness:
  "(0::int) \<le> 60 \<and> (0::real) \<le> 153600 \<and> (0::real) \<le> 25 \<and> (0::real) \<le> 12 \<and>
   (0::int) \<le> 15 \<and> (15::int) \<le> 60 \<and>
   0 < max_vehicles default_detector \<and> 0 < roi_area default_detector \<and>
   0 < max_speed default_detector \<and> (0::real) < 30 \<and>
   compute_density_score 60 153600 default_detector = Inr (3 / 4) \<and>
   compute_speed_score 25 default_detector = Inr (3 / 4) \<and>
   compute_flow_score 12 30 default_detector = Inr (3 / 5) \<and>
   compute_queue_score 15 60 default_detector = Inr (1 / 4) \<and>
   (\<exists>x. compute_density_score 60 153600 default_detector = Inr x \<and> 0 \<le> x \<and> x \<le> 1)"
proof -
  have h: "(0::int) \<le> 60" "(0::real) \<le> 153600" "(0::real) \<le> 25" "(0::real) \<le> 12"
    "(0::int) \<le> 15" "(15::int) \<le> 60"
    "0 < max_vehicles default_detector" "0 < roi_area default_detector"
    "0 < max_speed default_detector" "(0::real) < 30"
    by (simp_all add: default_detector_def)
  have v: "compute_density_score 60 153600 default_detector = Inr (3 / 4)"
    "compute_speed_score 25 default_detector = Inr (3 / 4)"
    "compute_flow_score 12 30 default_detector = Inr (3 / 5)"
    "compute_queue_score 15 60 default_detector = Inr (1 / 4)"
    by (simp_all add: compute_density_score_def compute_speed_score_def compute_flow_score_def
        compute_queue_score_def py_truediv_def default_detector_def Let_def)
  show ?thesis
    using h v sub_scores_in_unit_interval [OF h] by blast
qed

text \<open>
  Claim C7 as stated fails when a normaliser is not positive: \<^verbatim>\<open>expected_flow = 0\<close> and a
  region of area \<open>0\<close> raise \<^verbatim>\<open>ZeroDivisionError\<close>, and \<^verbatim>\<open>max_speed = -100\<close> gives the score
  \<open>1.5\<close>.
\<close>

theorem sub_scores_zero_normalizer_counterexample:
  "compute_flow_score 1 0 default_detector = Inl ZeroDivisionError \<and>
   compute_density_score 10 100 (set_roi_area 0 0 default_detector) = Inl ZeroDivisionError \<and>
   compute_speed_score 50 (default_detector\<lparr>max_speed := - 100\<rparr>) = Inr (3 / 2)"
  by (simp add: compute_flow_score_def compute_density_score_def compute_speed_score_def
      set_roi_area_def py_truediv_def default_detector_def Let_def)

section \<open>Classification of the score\<close>

lemma classify_bands_above:
  "\<forall>(l, lo, hi) \<in> set bands. hi \<le> score \<Longrightarrow> classify_bands bands score = TRAFFIC_JAM"
  by (induction bands score rule: classify_bands.induct) auto

lemma classify_bands_first:
  "\<forall>(l, lo, hi) \<in> set pre. \<not> (lo \<le> score \<and> score < hi) \<Longrightarrow>
   lo \<le> score \<Longrightarrow> score < hi \<Longrightarrow>
   classify_bands (pre @ (level, (lo, hi)) # post) score = level"
  by (induction pre score rule: classify_bands.induct) auto

lemma classify_default_band:
  "(level, (lo, hi)) \<in> set default_thresholds \<Longrightarrow> lo \<le> score \<Longrightarrow> score < hi \<Longrightarrow>
   classify_bands default_thresholds score = level"
  by (auto simp: default_thresholds_def)

text \<open>
  Claim C8 (as amended). A score that is at or above the upper bound of every configured
  band is classified \<^verbatim>\<open>TRAFFIC_JAM\<close>, in particular the score \<open>1.0\<close> under the default bands.
  A score inside a configured band gets the level of the first band, in table order, that
  holds it: that band's level when no earlier band holds the score too, as for every band
  of the default table.
\<close>

theorem classify_congestion_bands:
  "((\<forall>(l, lo', hi') \<in> set (thresholds d). hi' \<le> score) \<longrightarrow>
      classify_congestion score d = TRAFFIC_JAM) \<and>
   (thresholds d = pre @ (level, (lo, hi)) # post \<and> lo \<le> score \<and> score < hi \<and>
    (\<forall>(l, lo', hi') \<in> set pre. \<not> (lo' \<le> score \<and> score < hi')) \<longrightarrow>
      classify_congestion score d = level) \<and>
   classify_congestion 1 default_detector = TRAFFIC_JAM \<and>
   ((level, (lo, hi)) \<in> set default_thresholds \<and> lo \<le> score \<and> score < hi \<longrightarrow>
      classify_congestion score default_detector = level)"
proof -
  have a: "(\<forall>(l, lo', hi') \<in> set (thresholds d). hi' \<le> score) \<longrightarrow>
      classify_congestion score d = TRAFFIC_JAM"
    using classify_bands_above [of "thresholds d" score]
    by (simp add: classify_congestion_def)
  have b: "thresholds d = pre @ (level, (lo, hi)) # post \<and> lo \<le> score \<and> score < hi \<and>
    (\<forall>(l, lo', hi') \<in> set pre. \<not> (lo' \<le> score \<and> score < hi')) \<longrightarrow>
      classify_congestion score d = level"
    using classify_bands_first [of pre score lo hi level post]
    by (simp add: classify_congestion_def)
  have c: "classify_congestion 1 default_detector = TRAFFIC_JAM"
    by (simp add: classify_congestion_def default_detector_def default_thresholds_def)
  have e: "(level, (lo, hi)) \<in> set default_thresholds \<and> lo \<le> score \<and> score < hi \<longrightarrow>
      classify_congestion score default_detector = level"
    using classify_default_band [of level lo hi score]
    by (simp add: classify_congestion_def default_detector_def)
  show ?thesis using a b c e by blast
qed

theorem classify_congestion_bands_witness:
  "list_all (\<lambda>(l, lo', hi'). hi' \<le> 1.25) (thresholds default_detector) \<and>
   classify_congestion 1.25 default_detector = TRAFFIC_JAM \<and>
   thresholds default_detector =
     [(FREE_FLOW, (0, 0.2)), (LIGHT, (0.2, 0.4))] @ (MODERATE, (0.4, 0.6)) #
     [(HEAVY, (0.6, 0.8)), (TRAFFIC_JAM, (0.8, 1))] \<and>
   (0.4 :: real) \<le> 0.5 \<and> (0.5 :: real) < 0.6 \<and>
   list_all (\<lambda>(l, lo', hi'). \<not> (lo' \<le> (0.5 :: real) \<and> (0.5 :: real) < hi'))
     [(FREE_FLOW, (0, 0.2)), (LIGHT, (0.2, 0.4))] \<and>
   (MODERATE, (0.4, 0.6)) \<in> set default_thresholds \<and>
   classify_congestion 0.5 default_detector = MODERATE"
proof -
  have h1: "\<forall>(l, lo', hi') \<in> set (thresholds default_detector). hi' \<le> 1.25"
    by (simp add: default_detector_def default_thresholds_def)
  have h2: "thresholds default_detector =
     [(FREE_FLOW, (0, 0.2)), (LIGHT, (0.2, 0.4))] @ (MODERATE, (0.4, 0.6)) #
     [(HEAVY, (0.6, 0.8)), (TRAFFIC_JAM, (0.8, 1))]"
    by (simp add: default_detector_def default_thresholds_def)
  have h3: "(0.4 :: real) \<le> 0.5" "(0.5 :: real) < 0.6"
    "\<forall>(l, lo', hi') \<in> set [(FREE_FLOW, (0, 0.2)), (LIGHT, (0.2, 0.4))].
      \<not> (lo' \<le> (0.5 :: real) \<and> (0.5 :: real) < hi')"
    "(MODERATE, (0.4, 0.6)) \<in> set default_thresholds"
    by (simp_all add: default_thresholds_def)
  have j: "classify_congestion 1.25 default_detector = TRAFFIC_JAM"
    using classify_congestion_bands [of default_detector "1.25"] h1 by blast
  have k: "classify_congestion 0.5 default_detector = MODERATE"
    using classify_congestion_bands [of default_detector "0.5"
        "[(FREE_FLOW, (0, 0.2)), (LIGHT, (0.2, 0.4))]" MODERATE "0.4" "0.6"
        "[(HEAVY, (0.6, 0.8)), (TRAFFIC_JAM, (0.8, 1))]"] h2 h3
    by blast
  show ?thesis using h1 h2 h3 j k by (simp add: list_all_iff)
qed

text \<open>
  Claim C8 as stated fails for a table with overlapping bands: \<open>0.4\<close> lies in the band
  \<open>[0.3, 0.6)\<close> configured for \<^verbatim>\<open>LIGHT\<close> and is classified \<^verbatim>\<open>FREE_FLOW\<close>, whose band
  \<open>[0, 0.5)\<close> comes first.
\<close>

theorem classify_overlapping_bands_counterexample:
  "(0.3 :: real) \<le> 0.4 \<and> (0.4 :: real) < 0.6 \<and>
   classify_congestion 0.4
     (customize_thresholds
        [(FREE_FLOW, (0, 0.5)), (LIGHT, (0.3, 0.6)), (MODERATE, (0.6, 0.7)),
         (HEAVY, (0.7, 0.8)), (TRAFFIC_JAM, (0.8, 1))] default_detector) = FREE_FLOW"
  by (simp add: classify_congestion_def customize_thresholds_def)

section \<open>What analyze assigns to\<close>

lemma advance_flow_window_frame:
  "advance_flow_window f d =
     d\<lparr>flow_window_frames := flow_window_frames (advance_flow_window f d),
       vehicle_entry_count := vehicle_entry_count (advance_flow_window f d)\<rparr>"
  by (simp add: advance_flow_window_def Let_def)

lemma analyze_state:
  "snd (analyze trks fi f ts d) =
     (if trks = [] \<or> roi_area d = 0 then d else advance_flow_window f d)"
  by (cases trks)
     (auto simp: analyze_def Let_def py_truediv_def split: prod.splits sum.splits)

text \<open>
  Claim C10. \<^verbatim>\<open>analyze\<close> with an empty track list returns the detector unchanged. For any
  track list the detector after the call differs from the one before at most in
  \<^verbatim>\<open>flow_window_frames\<close> and \<^verbatim>\<open>vehicle_entry_count\<close>: the weights, the thresholds,
  \<^verbatim>\<open>roi_area\<close>, \<^verbatim>\<open>max_vehicles\<close>, \<^verbatim>\<open>max_speed\<close>, \<^verbatim>\<open>stopped_threshold\<close> and
  \<^verbatim>\<open>flow_window_duration\<close> keep their values. With a non-empty list and a non-zero
  \<^verbatim>\<open>roi_area\<close> the new detector is the old one after the flow-window step.
\<close>

theorem analyze_frame:
  "snd (analyze [] fi f ts d) = d \<and>
   snd (analyze trks fi f ts d) =
     d\<lparr>flow_window_frames := flow_window_frames (snd (analyze trks fi f ts d)),
       vehicle_entry_count := vehicle_entry_count (snd (analyze trks fi f ts d))\<rparr> \<and>
   density_weight (snd (analyze trks fi f ts d)) = density_weight d \<and>
   speed_weight (snd (analyze trks fi f ts d)) = speed_weight d \<and>
   flow_weight (snd (analyze trks fi f ts d)) = flow_weight d \<and>
   queue_weight (snd (analyze trks fi f ts d)) = queue_weight d \<and>
   thresholds (snd (analyze trks fi f ts d)) = thresholds d \<and>
   roi_area (snd (analyze trks fi f ts d)) = roi_area d \<and>
   max_vehicles (snd (analyze trks fi f ts d)) = max_vehicles d \<and>
   max_speed (snd (analyze trks fi f ts d)) = max_speed d \<and>
   stopped_threshold (snd (analyze trks fi f ts d)) = stopped_threshold d \<and>
   flow_window_duration (snd (analyze trks fi f ts d)) = flow_window_duration d \<and>
   (trks \<noteq> [] \<and> roi_area d \<noteq> 0 \<longrightarrow>
      snd (analyze trks fi f ts d) = advance_flow_window f d)"
proof -
  have e: "snd (analyze [] fi f ts d) = d"
    by (simp add: analyze_state)
  have r: "snd (analyze trks fi f ts d) =
     d\<lparr>flow_window_frames := flow_window_frames (snd (analyze trks fi f ts d)),
       vehicle_entry_count := vehicle_entry_count (snd (analyze trks fi f ts d))\<rparr>"
    using advance_flow_window_frame [of f d] by (simp add: analyze_state)
  have fields:
    "density_weight (snd (analyze trks fi f ts d)) = density_weight d"
    "speed_weight (snd (analyze trks fi f ts d)) = speed_weight d"
    "flow_weight (snd (analyze trks fi f ts d)) = flow_weight d"
    "queue_weight (snd (analyze trks fi f ts d)) = queue_weight d"
    "thresholds (snd (analyze trks fi f ts d)) = thresholds d"
    "roi_area (snd (analyze trks fi f ts d)) = roi_area d"
    "max_vehicles (snd (analyze trks fi f ts d)) = max_vehicles d"
    "max_speed (snd (analyze trks fi f ts d)) = max_speed d"
    "stopped_threshold (snd (analyze trks fi f ts d)) = stopped_threshold d"
    "flow_window_duration (snd (analyze trks fi f ts d)) = flow_window_duration d"
    by (simp_all add: analyze_state advance_flow_window_def Let_def)
  have n: "trks \<noteq> [] \<and> roi_area d \<noteq> 0 \<longrightarrow>
      snd (analyze trks fi f ts d) = advance_flow_window f d"
    by (simp add: analyze_state)
  show ?thesis using e r fields n by blast
qed

theorem analyze_frame_witness:
  "[track_updates [((0, 0, 10, 10), 0, None, None)] (projr (VehicleTrack_init 1 30))] \<noteq> [] \<and>
   roi_area default_detector \<noteq> 0 \<and>
   snd (analyze [track_updates [((0, 0, 10, 10), 0, None, None)] (projr (VehicleTrack_init 1 30))]
          0 30 None default_detector) =
     default_detector\<lparr>flow_window_frames := 1\<rparr>"
  using analyze_frame [of 0 30 None default_detector
      "[track_updates [((0, 0, 10, 10), 0, None, None)] (projr (VehicleTrack_init 1 30))]"]
  by (simp add: advance_flow_window_def default_detector_def)

section \<open>The manager keeps its maps aligned\<close>

lemma keys_update: "fst ` set (AList.update k v al) = insert k (fst ` set al)"
  using dom_update [of k v al] by auto

lemma keys_delete: "fst ` set (AList.delete k al) = fst ` set al - {k}"
  using delete_keys [of k al] by (metis list.set_map set_removeAll)

lemma map_of_None_keys: "map_of al k = None \<longleftrightarrow> k \<notin> fst ` set al"
  by (simp add: map_of_eq_None_iff)

lemma list_all_update:
  "list_all P al \<Longrightarrow> P (k, v) \<Longrightarrow> list_all P (AList.update k v al)"
  by (induction al) auto

lemma list_all_delete: "list_all P al \<Longrightarrow> list_all P (AList.delete k al)"
  by (induction al) auto

lemma track_id_update: "track_id (VehicleTrack_update b f cid cname t) = track_id t"
  by (cases cid; cases cname; cases "first_frame t"; simp add: VehicleTrack_update_def Let_def)

lemma track_id_init: "VehicleTrack_init tid mh = Inr t \<Longrightarrow> track_id t = tid"
  by (auto simp: VehicleTrack_init_def split: if_splits)

lemma stored_track_id:
  "list_all (\<lambda>(k, t). track_id t = k) al \<Longrightarrow> map_of al k = Some t \<Longrightarrow> track_id t = k"
  by (auto simp: list_all_iff dest: map_of_SomeD)

subsection \<open>One detection\<close>

lemma update_detection_known:
  assumes "map_of (tracks m) tid = Some t"
  shows "update_detection (tid, b, cid, cname) f m =
           (m\<lparr>tracks := AList.update tid (VehicleTrack_update b f cid cname t) (tracks m),
              track_ages := AList.update tid 0 (track_ages m)\<rparr>, None)"
  using assms by simp

lemma update_detection_new:
  assumes "map_of (tracks m) tid = None" "VehicleTrack_init tid (mgr_max_history m) = Inr t0"
  shows "update_detection (tid, b, cid, cname) f m =
           (m\<lparr>tracks := AList.update tid (VehicleTrack_update b f cid cname t0) (tracks m),
              total_tracks_created := total_tracks_created m + 1,
              track_ages := AList.update tid 0 (track_ages m)\<rparr>, None)"
  using assms by (simp add: update_conv')

lemma update_detection_raise:
  assumes "map_of (tracks m) tid = None" "VehicleTrack_init tid (mgr_max_history m) = Inl e"
  shows "update_detection (tid, b, cid, cname) f m = (m, Some e)"
  using assms by simp

lemma update_detection_cases:
  obtains
    (known) t where "map_of (tracks m) tid = Some t"
  | (new) t0 where "map_of (tracks m) tid = None"
      "VehicleTrack_init tid (mgr_max_history m) = Inr t0" "0 \<le> mgr_max_history m"
  | (raise) "map_of (tracks m) tid = None"
      "VehicleTrack_init tid (mgr_max_history m) = Inl ValueError" "mgr_max_history m < 0"
proof (cases "map_of (tracks m) tid")
  case None
  show ?thesis
  proof (cases "mgr_max_history m < 0")
    case True
    then show ?thesis using None raise by (simp add: VehicleTrack_init_def)
  next
    case False
    then obtain t0 where "VehicleTrack_init tid (mgr_max_history m) = Inr t0"
      by (simp add: VehicleTrack_init_def)
    then show ?thesis using None False new by simp
  qed
next
  case (Some t)
  then show ?thesis using known by simp
qed

lemma update_detection_inv:
  assumes "manager_inv m"
  shows "manager_inv (fst (update_detection det f m))"
proof -
  obtain tid b cid cname where det: "det = (tid, b, cid, cname)" by (cases det) auto
  show ?thesis
  proof (cases m tid rule: update_detection_cases)
    case (known t)
    have "track_id t = tid"
      using assms known by (auto simp: manager_inv_def intro: stored_track_id)
    then show ?thesis
      using assms known unfolding det update_detection_known [OF known]
      by (auto simp: manager_inv_def keys_update distinct_update track_id_update
          intro!: list_all_update)
  next
    case (new t0)
    have "track_id t0 = tid" using new(2) by (rule track_id_init)
    then show ?thesis
      using assms new(3) unfolding det update_detection_new [OF new(1,2)]
      by (auto simp: manager_inv_def keys_update distinct_update track_id_update
          intro!: list_all_update)
  next
    case raise
    then show ?thesis
      using assms unfolding det update_detection_raise [OF raise(1,2)] by simp
  qed
qed

lemma update_detection_fields:
  "max_age (fst (update_detection det f m)) = max_age m \<and>
   mgr_max_history (fst (update_detection det f m)) = mgr_max_history m \<and>
   completed_tracks (fst (update_detection det f m)) = completed_tracks m"
proof -
  obtain tid b cid cname where det: "det = (tid, b, cid, cname)" by (cases det) auto
  show ?thesis
  proof (cases m tid rule: update_detection_cases)
    case (known t)
    then show ?thesis unfolding det update_detection_known [OF known] by simp
  next
    case (new t0)
    then show ?thesis unfolding det update_detection_new [OF new(1,2)] by simp
  next
    case raise
    then show ?thesis unfolding det update_detection_raise [OF raise(1,2)] by simp
  qed
qed

lemma update_detection_no_raise:
  assumes "0 \<le> mgr_max_history m"
  shows "snd (update_detection det f m) = None"
proof -
  obtain tid b cid cname where det: "det = (tid, b, cid, cname)" by (cases det) auto
  show ?thesis
  proof (cases m tid rule: update_detection_cases)
    case (known t)
    then show ?thesis unfolding det update_detection_known [OF known] by simp
  next
    case (new t0)
    then show ?thesis unfolding det update_detection_new [OF new(1,2)] by simp
  next
    case raise
    then show ?thesis using assms by simp
  qed
qed

lemma update_detection_other:
  assumes "k \<noteq> fst det"
  shows "map_of (tracks (fst (update_detection det f m))) k = map_of (tracks m) k \<and>
         map_of (track_ages (fst (update_detection det f m))) k = map_of (track_ages m) k"
proof -
  obtain tid b cid cname where det: "det = (tid, b, cid, cname)" by (cases det) auto
  have ne: "k \<noteq> tid" using assms det by simp
  show ?thesis
  proof (cases m tid rule: update_detection_cases)
    case (known t)
    then show ?thesis using ne unfolding det update_detection_known [OF known]
      by (simp add: update_conv')
  next
    case (new t0)
    then show ?thesis using ne unfolding det update_detection_new [OF new(1,2)]
      by (simp add: update_conv')
  next
    case raise
    then show ?thesis unfolding det update_detection_raise [OF raise(1,2)] by simp
  qed
qed

lemma update_detection_same:
  assumes "snd (update_detection det f m) = None"
  shows "map_of (track_ages (fst (update_detection det f m))) (fst det) = Some 0 \<and>
         map_of (tracks (fst (update_detection det f m))) (fst det) \<noteq> None"
proof -
  obtain tid b cid cname where det: "det = (tid, b, cid, cname)" by (cases det) auto
  show ?thesis
  proof (cases m tid rule: update_detection_cases)
    case (known t)
    then show ?thesis unfolding det update_detection_known [OF known]
      by (simp add: update_conv')
  next
    case (new t0)
    then show ?thesis unfolding det update_detection_new [OF new(1,2)]
      by (simp add: update_conv')
  next
    case raise
    then show ?thesis using assms unfolding det update_detection_raise [OF raise(1,2)] by simp
  qed
qed

subsection \<open>The loop over the detections\<close>

lemma update_detections_step:
  "update_detections (det # ds) f m =
     (if snd (update_detection det f m) = None
      then update_detections ds f (fst (update_detection det f m))
      else update_detection det f m)"
  by (cases "update_detection det f m") (auto split: option.splits)

lemma update_detections_inv:
  "manager_inv m \<Longrightarrow> manager_inv (fst (update_detections ds f m))"
proof (induction ds arbitrary: m)
  case Nil
  then show ?case by simp
next
  case (Cons det ds)
  then show ?case
    unfolding update_detections_step by (simp add: update_detection_inv)
qed

lemma update_detections_fields:
  "max_age (fst (update_detections ds f m)) = max_age m \<and>
   mgr_max_history (fst (update_detections ds f m)) = mgr_max_history m \<and>
   completed_tracks (fst (update_detections ds f m)) = completed_tracks m"
proof (induction ds arbitrary: m)
  case Nil
  then show ?case by simp
next
  case (Cons det ds)
  show ?case
    unfolding update_detections_step
    using Cons [of "fst (update_detection det f m)"] update_detection_fields [of det f m]
    by simp
qed

lemma update_detections_no_raise:
  "0 \<le> mgr_max_history m \<Longrightarrow> snd (update_detections ds f m) = None"
proof (induction ds arbitrary: m)
  case Nil
  then show ?case by simp
next
  case (Cons det ds)
  have "0 \<le> mgr_max_history (fst (update_detection det f m))"
    using Cons.prems update_detection_fields [of det f m] by simp
  then show ?case
    unfolding update_detections_step
    using Cons.IH update_detection_no_raise [OF Cons.prems] by simp
qed

lemma update_detections_other:
  "k \<notin> fst ` set ds \<Longrightarrow>
   map_of (tracks (fst (update_detections ds f m))) k = map_of (tracks m) k \<and>
   map_of (track_ages (fst (update_detections ds f m))) k = map_of (track_ages m) k"
proof (induction ds arbitrary: m)
  case Nil
  then show ?case by simp
next
  case (Cons det ds)
  have k: "k \<noteq> fst det" "k \<notin> fst ` set ds" using Cons.prems by auto
  show ?case
    unfolding update_detections_step
    using Cons.IH [OF k(2)] update_detection_other [OF k(1)] by simp
qed

lemma update_detections_same:
  "k \<in> fst ` set ds \<Longrightarrow> snd (update_detections ds f m) = None \<Longrightarrow>
   map_of (track_ages (fst (update_detections ds f m))) k = Some 0 \<and>
   map_of (tracks (fst (update_detections ds f m))) k \<noteq> None"
proof (induction ds arbitrary: m)
  case Nil
  then show ?case by simp
next
  case (Cons det ds)
  have ok: "snd (update_detection det f m) = None"
    using Cons.prems(2) unfolding update_detections_step by (auto split: if_splits)
  then have rest: "snd (update_detections ds f (fst (update_detection det f m))) = None"
    using Cons.prems(2) unfolding update_detections_step by simp
  show ?case
  proof (cases "k \<in> fst ` set ds")
    case True
    then show ?thesis
      unfolding update_detections_step using ok Cons.IH [OF True rest] by simp
  next
    case False
    then have "k = fst det" using Cons.prems(1) by auto
    then show ?thesis
      unfolding update_detections_step
      using ok update_detections_other [OF False] update_detection_same [OF ok] by simp
  qed
qed


subsection \<open>Ageing\<close>

lemma age_tracks_step:
  "age_tracks (k # ks) det m =
     (if k \<notin> set det
      then (fst (age_tracks ks det (m\<lparr>track_ages := AList.update k (age_of m k + 1) (track_ages m)\<rparr>)),
            if age_of m k + 1 > max_age m
            then k # snd (age_tracks ks det (m\<lparr>track_ages := AList.update k (age_of m k + 1) (track_ages m)\<rparr>))
            else snd (age_tracks ks det (m\<lparr>track_ages := AList.update k (age_of m k + 1) (track_ages m)\<rparr>)))
      else age_tracks ks det m)"
  by (simp add: Let_def)

lemma age_tracks_fields:
  "tracks (fst (age_tracks ks det m)) = tracks m \<and>
   max_age (fst (age_tracks ks det m)) = max_age m \<and>
   mgr_max_history (fst (age_tracks ks det m)) = mgr_max_history m \<and>
   completed_tracks (fst (age_tracks ks det m)) = completed_tracks m"
proof (induction ks arbitrary: m)
  case Nil
  then show ?case by simp
next
  case (Cons k ks)
  show ?case unfolding age_tracks_step using Cons by simp
qed

lemma age_tracks_keys:
  "fst ` set (track_ages (fst (age_tracks ks det m))) =
     fst ` set (track_ages m) \<union> (set ks - set det)"
proof (induction ks arbitrary: m)
  case Nil
  then show ?case by simp
next
  case (Cons k ks)
  show ?case unfolding age_tracks_step using Cons by (auto simp: keys_update)
qed

lemma age_tracks_age:
  "distinct ks \<Longrightarrow>
   map_of (track_ages (fst (age_tracks ks det m))) k =
     (if k \<in> set ks \<and> k \<notin> set det then Some (age_of m k + 1) else map_of (track_ages m) k)"
proof (induction ks arbitrary: m)
  case Nil
  then show ?case by simp
next
  case (Cons x ks)
  have d: "distinct ks" "x \<notin> set ks" using Cons.prems by auto
  have other: "age_of (m\<lparr>track_ages := AList.update x v (track_ages m)\<rparr>) k = age_of m k"
    if "k \<noteq> x" for v
    using that by (simp add: age_of_def update_conv')
  show ?case
    unfolding age_tracks_step using Cons.IH [OF d(1)] d(2)
    by (auto simp: update_conv' other)
qed

lemma age_tracks_removed:
  "distinct ks \<Longrightarrow>
   set (snd (age_tracks ks det m)) =
     {k \<in> set ks. k \<notin> set det \<and> max_age m < age_of m k + 1}"
proof (induction ks arbitrary: m)
  case Nil
  then show ?case by simp
next
  case (Cons x ks)
  have d: "distinct ks" "x \<notin> set ks" using Cons.prems by auto
  have other: "age_of (m\<lparr>track_ages := AList.update x v (track_ages m)\<rparr>) k = age_of m k"
    if "k \<noteq> x" for v k
    using that by (simp add: age_of_def update_conv')
  have same: "{k \<in> set ks. k \<notin> set det \<and>
                 max_age m < age_of (m\<lparr>track_ages := AList.update x v (track_ages m)\<rparr>) k + 1} =
              {k \<in> set ks. k \<notin> set det \<and> max_age m < age_of m k + 1}" for v
    using d(2) other by (metis (no_types, lifting))
  show ?case
    unfolding age_tracks_step using Cons.IH [OF d(1)] same
    by auto
qed

subsection \<open>Removal\<close>

lemma remove_track_absent:
  "map_of (tracks m) k = None \<Longrightarrow> remove_track k m = (m, None)"
  by (simp add: remove_track_def)

lemma remove_track_present:
  assumes "map_of (tracks m) k = Some t" "map_of (track_ages m) k \<noteq> None"
  shows "remove_track k m =
           (m\<lparr>completed_tracks := completed_tracks m @ [t\<lparr>is_active := False\<rparr>],
              tracks := AList.delete k (tracks m),
              track_ages := AList.delete k (track_ages m),
              total_tracks_completed := total_tracks_completed m + 1\<rparr>, None)"
  using assms by (auto simp: remove_track_def Let_def)

lemma inv_age_present:
  "manager_inv m \<Longrightarrow> map_of (tracks m) k = Some t \<Longrightarrow> map_of (track_ages m) k \<noteq> None"
  unfolding manager_inv_def map_of_None_keys
  by (metis list.set_map map_of_None_keys option.distinct(1))

lemma remove_track_inv:
  assumes "manager_inv m"
  shows "manager_inv (fst (remove_track k m)) \<and> snd (remove_track k m) = None \<and>
         max_age (fst (remove_track k m)) = max_age m \<and>
         mgr_max_history (fst (remove_track k m)) = mgr_max_history m \<and>
         map_of (tracks (fst (remove_track k m))) = (map_of (tracks m))(k := None) \<and>
         map_of (track_ages (fst (remove_track k m))) = (map_of (track_ages m))(k := None) \<and>
         set (completed_tracks m) \<subseteq> set (completed_tracks (fst (remove_track k m))) \<and>
         (\<forall>t. map_of (tracks m) k = Some t \<longrightarrow>
            t\<lparr>is_active := False\<rparr> \<in> set (completed_tracks (fst (remove_track k m))))"
proof (cases "map_of (tracks m) k")
  case None
  then have "map_of (track_ages m) k = None"
    using assms unfolding manager_inv_def map_of_None_keys by simp
  then show ?thesis
    using assms None by (simp add: remove_track_absent fun_upd_idem)
next
  case (Some t)
  have ages: "map_of (track_ages m) k \<noteq> None" using assms Some by (rule inv_age_present)
  have "manager_inv (m\<lparr>completed_tracks := completed_tracks m @ [t\<lparr>is_active := False\<rparr>],
              tracks := AList.delete k (tracks m),
              track_ages := AList.delete k (track_ages m),
              total_tracks_completed := total_tracks_completed m + 1\<rparr>)"
    using assms
    by (auto simp: manager_inv_def keys_delete distinct_delete intro: list_all_delete)
  then show ?thesis
    using Some unfolding remove_track_present [OF Some ages]
    by (auto simp: delete_conv')
qed

lemma remove_tracks_step:
  "remove_tracks (k # ks) m =
     (if snd (remove_track k m) = None then remove_tracks ks (fst (remove_track k m))
      else remove_track k m)"
  by (cases "remove_track k m") (auto split: option.splits)

lemma remove_tracks_inv:
  "manager_inv m \<Longrightarrow>
     manager_inv (fst (remove_tracks ks m)) \<and> snd (remove_tracks ks m) = None \<and>
     max_age (fst (remove_tracks ks m)) = max_age m \<and>
     mgr_max_history (fst (remove_tracks ks m)) = mgr_max_history m \<and>
     (\<forall>x. map_of (tracks (fst (remove_tracks ks m))) x =
            (if x \<in> set ks then None else map_of (tracks m) x)) \<and>
     (\<forall>x. map_of (track_ages (fst (remove_tracks ks m))) x =
            (if x \<in> set ks then None else map_of (track_ages m) x)) \<and>
     set (completed_tracks m) \<subseteq> set (completed_tracks (fst (remove_tracks ks m))) \<and>
     (\<forall>x t. x \<in> set ks \<and> map_of (tracks m) x = Some t \<longrightarrow>
        t\<lparr>is_active := False\<rparr> \<in> set (completed_tracks (fst (remove_tracks ks m))))"
proof (induction ks arbitrary: m)
  case Nil
  then show ?case by simp
next
  case (Cons k ks)
  let ?m1 = "fst (remove_track k m)"
  note r = remove_track_inv [OF Cons.prems, of k]
  have inv1: "manager_inv ?m1" and ok: "snd (remove_track k m) = None" using r by auto
  note ih = Cons.IH [OF inv1]
  have step: "remove_tracks (k # ks) m = remove_tracks ks ?m1"
    unfolding remove_tracks_step using ok by simp
  have tr: "map_of (tracks ?m1) = (map_of (tracks m))(k := None)"
    and ag: "map_of (track_ages ?m1) = (map_of (track_ages m))(k := None)"
    using r by auto
  have arch: "t\<lparr>is_active := False\<rparr> \<in> set (completed_tracks (fst (remove_tracks ks ?m1)))"
    if "x \<in> set (k # ks)" "map_of (tracks m) x = Some t" for x t
  proof (cases "x = k")
    case True
    then have "t\<lparr>is_active := False\<rparr> \<in> set (completed_tracks ?m1)" using r that by auto
    then show ?thesis using ih by auto
  next
    case False
    then have "x \<in> set ks" "map_of (tracks ?m1) x = Some t" using that tr by auto
    then show ?thesis using ih by blast
  qed
  have sub: "set (completed_tracks m) \<subseteq> set (completed_tracks (fst (remove_tracks ks ?m1)))"
    using r ih by blast
  have c1: "manager_inv (fst (remove_tracks ks ?m1))"
    and c2: "snd (remove_tracks ks ?m1) = None"
    and c3: "max_age (fst (remove_tracks ks ?m1)) = max_age m"
    and c4: "mgr_max_history (fst (remove_tracks ks ?m1)) = mgr_max_history m"
    using ih r by auto
  have c5: "\<forall>x. map_of (tracks (fst (remove_tracks ks ?m1))) x =
            (if x \<in> set (k # ks) then None else map_of (tracks m) x)"
    using ih by (simp add: tr)
  have c6: "\<forall>x. map_of (track_ages (fst (remove_tracks ks ?m1))) x =
            (if x \<in> set (k # ks) then None else map_of (track_ages m) x)"
    using ih by (simp add: ag)
  have c8: "\<forall>x t. x \<in> set (k # ks) \<and> map_of (tracks m) x = Some t \<longrightarrow>
        t\<lparr>is_active := False\<rparr> \<in> set (completed_tracks (fst (remove_tracks ks ?m1)))"
    using arch by blast
  show ?case
    unfolding step using c1 c2 c3 c4 c5 c6 sub c8 by blast
qed

subsection \<open>The whole update, clear, and sequences of calls\<close>

lemma TrackManager_update_raise:
  "snd (update_detections ds f m) \<noteq> None \<Longrightarrow>
   TrackManager_update ds f m = update_detections ds f m"
  by (cases "update_detections ds f m") (auto simp: TrackManager_update_def)

lemma TrackManager_update_normal:
  "snd (update_detections ds f m) = None \<Longrightarrow>
   TrackManager_update ds f m =
     remove_tracks
       (snd (age_tracks (map fst (tracks (fst (update_detections ds f m)))) (map fst ds)
               (fst (update_detections ds f m))))
       (fst (age_tracks (map fst (tracks (fst (update_detections ds f m)))) (map fst ds)
               (fst (update_detections ds f m))))"
  by (cases "update_detections ds f m") (auto simp: TrackManager_update_def Let_def)

lemma age_tracks_inv:
  assumes "manager_inv m"
  shows "manager_inv (fst (age_tracks (map fst (tracks m)) det m))"
  using assms age_tracks_fields [of "map fst (tracks m)" det m]
    age_tracks_keys [of "map fst (tracks m)" det m]
  by (auto simp: manager_inv_def)

lemma TrackManager_update_inv:
  assumes "manager_inv m"
  shows "manager_inv (fst (TrackManager_update ds f m))"
proof (cases "snd (update_detections ds f m) = None")
  case True
  have "manager_inv (fst (update_detections ds f m))"
    using assms by (rule update_detections_inv)
  then have "manager_inv (fst (age_tracks (map fst (tracks (fst (update_detections ds f m))))
      (map fst ds) (fst (update_detections ds f m))))"
    by (rule age_tracks_inv)
  then show ?thesis
    unfolding TrackManager_update_normal [OF True] using remove_tracks_inv by blast
next
  case False
  then show ?thesis
    unfolding TrackManager_update_raise [OF False] using assms by (simp add: update_detections_inv)
qed

lemma apply_op_inv: "manager_inv m \<Longrightarrow> manager_inv (fst (apply_op op m))"
proof (cases op)
  case (Update ds f)
  then show "manager_inv m \<Longrightarrow> ?thesis" by (simp add: TrackManager_update_inv)
next
  case (RemoveTrack k)
  then show "manager_inv m \<Longrightarrow> ?thesis" using remove_track_inv by simp
next
  case Clear
  then show "manager_inv m \<Longrightarrow> ?thesis" using remove_tracks_inv by (simp add: clear_def)
qed

lemma init_inv: "manager_inv (TrackManager_init ma mh)"
  by (simp add: manager_inv_def TrackManager_init_def)

lemma run_ops_inv: "manager_inv m \<Longrightarrow> manager_inv (run_ops ops m)"
  by (induction ops arbitrary: m) (auto simp: apply_op_inv)

text \<open>
  Claim C9. From a freshly constructed \<^verbatim>\<open>TrackManager\<close>, after every sequence of \<^verbatim>\<open>update\<close>,
  \<^verbatim>\<open>remove_track\<close> and \<^verbatim>\<open>clear\<close> calls (a call that raises leaves the manager as it is at
  the raise), the key set of \<^verbatim>\<open>track_ages\<close> equals the key set of \<^verbatim>\<open>tracks\<close>.
\<close>

theorem track_maps_same_keys:
  "fst ` set (track_ages (run_ops ops (TrackManager_init ma mh))) =
   fst ` set (tracks (run_ops ops (TrackManager_init ma mh)))"
  using run_ops_inv [OF init_inv, of ops ma mh] by (simp add: manager_inv_def)

theorem track_maps_same_keys_witness:
  "fst ` set (tracks (run_ops [Update [(1, (0, 0, 10, 10), None, None)] 0, Update [] 1,
                               Update [(2, (5, 5, 9, 9), None, None)] 2, RemoveTrack 1]
                        (TrackManager_init 30 30))) = {2} \<and>
   fst ` set (track_ages (run_ops [Update [(1, (0, 0, 10, 10), None, None)] 0, Update [] 1,
                                   Update [(2, (5, 5, 9, 9), None, None)] 2, RemoveTrack 1]
                            (TrackManager_init 30 30))) = {2}"
proof -
  have "fst ` set (tracks (run_ops [Update [(1, (0, 0, 10, 10), None, None)] 0, Update [] 1,
                               Update [(2, (5, 5, 9, 9), None, None)] 2, RemoveTrack 1]
                        (TrackManager_init 30 30))) = {2}"
    by (simp add: TrackManager_init_def TrackManager_update_def remove_track_def
        VehicleTrack_init_def Let_def)
  then show ?thesis
    using track_maps_same_keys [of "[Update [(1, (0, 0, 10, 10), None, None)] 0, Update [] 1,
                               Update [(2, (5, 5, 9, 9), None, None)] 2, RemoveTrack 1]" 30 30]
    by simp
qed

section \<open>Eviction after max_age + 1 misses\<close>

lemma inv_distinct: "manager_inv m \<Longrightarrow> distinct (map fst (tracks m))"
  by (simp add: manager_inv_def)

lemma inv_history: "manager_inv m \<Longrightarrow> map_of (tracks m) k = Some t \<Longrightarrow> 0 \<le> mgr_max_history m"
  by (auto simp: manager_inv_def)

lemma map_of_Some_key: "map_of al k = Some v \<Longrightarrow> k \<in> set (map fst al)"
  by (metis map_of_None_keys list.set_map option.distinct(1))

lemma miss_step:
  assumes inv: "manager_inv m"
    and tr: "map_of (tracks m) tid = Some t"
    and ag: "map_of (track_ages m) tid = Some a"
    and miss: "tid \<notin> fst ` set ds"
  shows "snd (TrackManager_update ds f m) = None \<and>
         manager_inv (fst (TrackManager_update ds f m)) \<and>
         max_age (fst (TrackManager_update ds f m)) = max_age m \<and>
         (a + 1 \<le> max_age m \<longrightarrow>
            map_of (tracks (fst (TrackManager_update ds f m))) tid = Some t \<and>
            map_of (track_ages (fst (TrackManager_update ds f m))) tid = Some (a + 1)) \<and>
         (max_age m < a + 1 \<longrightarrow>
            map_of (tracks (fst (TrackManager_update ds f m))) tid = None \<and>
            map_of (track_ages (fst (TrackManager_update ds f m))) tid = None \<and>
            t\<lparr>is_active := False\<rparr> \<in> set (completed_tracks (fst (TrackManager_update ds f m))))"
proof -
  let ?m1 = "fst (update_detections ds f m)"
  let ?ks = "map fst (tracks ?m1)"
  let ?r = "age_tracks ?ks (map fst ds) ?m1"
  let ?m2 = "fst ?r"
  let ?rm = "snd ?r"
  have mh: "0 \<le> mgr_max_history m" using inv tr by (rule inv_history)
  have ok1: "snd (update_detections ds f m) = None"
    using mh by (rule update_detections_no_raise)
  have inv1: "manager_inv ?m1" using inv by (rule update_detections_inv)
  have f1: "max_age ?m1 = max_age m" using update_detections_fields [of ds f m] by simp
  have tr1: "map_of (tracks ?m1) tid = Some t" and ag1: "map_of (track_ages ?m1) tid = Some a"
    using update_detections_other [OF miss, of f m] tr ag by simp_all
  have dist: "distinct ?ks" using inv1 by (rule inv_distinct)
  have mem: "tid \<in> set ?ks" using tr1 by (rule map_of_Some_key)
  have nd: "tid \<notin> set (map fst ds)" using miss by simp
  have age1: "age_of ?m1 tid = a" using ag1 by (simp add: age_of_def)
  have inv2: "manager_inv ?m2" using inv1 by (rule age_tracks_inv)
  have f2: "tracks ?m2 = tracks ?m1" "max_age ?m2 = max_age m"
    using age_tracks_fields [of ?ks "map fst ds" ?m1] f1 by simp_all
  have ag2: "map_of (track_ages ?m2) tid = Some (a + 1)"
    using age_tracks_age [OF dist, of "map fst ds" ?m1 tid] mem nd age1 by simp
  have rm: "tid \<in> set ?rm \<longleftrightarrow> max_age m < a + 1"
    using age_tracks_removed [OF dist, of "map fst ds" ?m1] mem nd age1 f1 by simp
  have upd: "TrackManager_update ds f m = remove_tracks ?rm ?m2"
    using ok1 by (rule TrackManager_update_normal)
  note r = remove_tracks_inv [OF inv2, of ?rm]
  have tr2: "map_of (tracks ?m2) tid = Some t" using tr1 f2 by simp
  have keep: "map_of (tracks (fst (remove_tracks ?rm ?m2))) tid = Some t \<and>
              map_of (track_ages (fst (remove_tracks ?rm ?m2))) tid = Some (a + 1)"
    if "a + 1 \<le> max_age m"
  proof -
    have "tid \<notin> set ?rm" using rm that by simp
    then show ?thesis using r tr2 ag2 by simp
  qed
  have evict: "map_of (tracks (fst (remove_tracks ?rm ?m2))) tid = None \<and>
               map_of (track_ages (fst (remove_tracks ?rm ?m2))) tid = None \<and>
               t\<lparr>is_active := False\<rparr> \<in> set (completed_tracks (fst (remove_tracks ?rm ?m2)))"
    if "max_age m < a + 1"
  proof -
    have in_rm: "tid \<in> set ?rm" using rm that by simp
    have "t\<lparr>is_active := False\<rparr> \<in> set (completed_tracks (fst (remove_tracks ?rm ?m2)))"
      using r in_rm tr2 by blast
    then show ?thesis using r in_rm by simp
  qed
  have c1: "snd (remove_tracks ?rm ?m2) = None"
    and c2: "manager_inv (fst (remove_tracks ?rm ?m2))"
    and c3: "max_age (fst (remove_tracks ?rm ?m2)) = max_age m"
    using r f2 by simp_all
  show ?thesis unfolding upd using c1 c2 c3 keep evict by blast
qed

lemma hit_step:
  assumes inv: "manager_inv m"
    and ok: "snd (TrackManager_update ds f m) = None"
    and hit: "tid \<in> fst ` set ds"
  shows "manager_inv (fst (TrackManager_update ds f m)) \<and>
         max_age (fst (TrackManager_update ds f m)) = max_age m \<and>
         map_of (tracks (fst (TrackManager_update ds f m))) tid \<noteq> None \<and>
         map_of (track_ages (fst (TrackManager_update ds f m))) tid = Some 0"
proof -
  let ?m1 = "fst (update_detections ds f m)"
  let ?ks = "map fst (tracks ?m1)"
  let ?r = "age_tracks ?ks (map fst ds) ?m1"
  let ?m2 = "fst ?r"
  let ?rm = "snd ?r"
  have ok1: "snd (update_detections ds f m) = None"
  proof (rule ccontr)
    assume "snd (update_detections ds f m) \<noteq> None"
    then show False using ok TrackManager_update_raise [of ds f m] by simp
  qed
  have inv1: "manager_inv ?m1" using inv by (rule update_detections_inv)
  have f1: "max_age ?m1 = max_age m" using update_detections_fields [of ds f m] by simp
  have s1: "map_of (track_ages ?m1) tid = Some 0" "map_of (tracks ?m1) tid \<noteq> None"
    using update_detections_same [OF hit ok1] by simp_all
  have dist: "distinct ?ks" using inv1 by (rule inv_distinct)
  have det: "tid \<in> set (map fst ds)" using hit by simp
  have inv2: "manager_inv ?m2" using inv1 by (rule age_tracks_inv)
  have f2: "tracks ?m2 = tracks ?m1" "max_age ?m2 = max_age m"
    using age_tracks_fields [of ?ks "map fst ds" ?m1] f1 by simp_all
  have ag2: "map_of (track_ages ?m2) tid = Some 0"
    using age_tracks_age [OF dist, of "map fst ds" ?m1 tid] det s1 by simp
  have rm: "tid \<notin> set ?rm"
    using age_tracks_removed [OF dist, of "map fst ds" ?m1] det by simp
  have upd: "TrackManager_update ds f m = remove_tracks ?rm ?m2"
    using ok1 by (rule TrackManager_update_normal)
  note r = remove_tracks_inv [OF inv2, of ?rm]
  show ?thesis unfolding upd using r rm s1 f2 ag2 by simp
qed

lemma misses_below:
  assumes "manager_inv m" "map_of (tracks m) tid = Some t" "map_of (track_ages m) tid = Some a"
    and "\<forall>(ds, f) \<in> set misses. tid \<notin> fst ` set ds"
    and "a + int (length misses) \<le> max_age m"
  shows "manager_inv (run_ops (map (\<lambda>(ds, f). Update ds f) misses) m) \<and>
         max_age (run_ops (map (\<lambda>(ds, f). Update ds f) misses) m) = max_age m \<and>
         map_of (tracks (run_ops (map (\<lambda>(ds, f). Update ds f) misses) m)) tid = Some t \<and>
         map_of (track_ages (run_ops (map (\<lambda>(ds, f). Update ds f) misses) m)) tid =
           Some (a + int (length misses))"
  using assms
proof (induction misses arbitrary: m a)
  case Nil
  then show ?case by simp
next
  case (Cons p misses)
  obtain ds f where p: "p = (ds, f)" by (cases p) auto
  have miss: "tid \<notin> fst ` set ds" using Cons.prems(4) p by simp
  have le: "a + 1 \<le> max_age m" using Cons.prems(5) by simp
  let ?m1 = "fst (TrackManager_update ds f m)"
  note st = miss_step [OF Cons.prems(1,2,3) miss, of f]
  have i1: "manager_inv ?m1" and a1: "max_age ?m1 = max_age m"
    and t1: "map_of (tracks ?m1) tid = Some t"
    and g1: "map_of (track_ages ?m1) tid = Some (a + 1)"
    using st le by simp_all
  have rest: "\<forall>(ds, f) \<in> set misses. tid \<notin> fst ` set ds" using Cons.prems(4) by simp
  have le1: "(a + 1) + int (length misses) \<le> max_age ?m1" using Cons.prems(5) a1 by simp
  show ?case
    using Cons.IH [OF i1 t1 g1 rest le1] a1 p by (simp add: add.assoc)
qed

lemma run_ops_append: "run_ops (xs @ ys) m = run_ops ys (run_ops xs m)"
  by (induction xs arbitrary: m) auto

lemma misses_evict:
  assumes inv: "manager_inv m" and tr: "map_of (tracks m) tid = Some t"
    and ag: "map_of (track_ages m) tid = Some 0"
    and miss: "\<forall>(ds, f) \<in> set misses. tid \<notin> fst ` set ds"
    and ma: "0 \<le> max_age m"
    and len: "length misses = nat (max_age m) + 1"
  shows "manager_inv (run_ops (map (\<lambda>(ds, f). Update ds f) misses) m) \<and>
         map_of (tracks (run_ops (map (\<lambda>(ds, f). Update ds f) misses) m)) tid = None \<and>
         map_of (track_ages (run_ops (map (\<lambda>(ds, f). Update ds f) misses) m)) tid = None \<and>
         t\<lparr>is_active := False\<rparr> \<in>
           set (completed_tracks (run_ops (map (\<lambda>(ds, f). Update ds f) misses) m))"
proof -
  have "misses \<noteq> []" using len by auto
  then obtain pre p where sp: "misses = pre @ [p]" by (metis rev_exhaust)
  obtain ds f where p: "p = (ds, f)" by (cases p) auto
  have lpre: "length pre = nat (max_age m)" using len sp by simp
  have mpre: "\<forall>(ds, f) \<in> set pre. tid \<notin> fst ` set ds" and mlast: "tid \<notin> fst ` set ds"
    using miss sp p by auto
  let ?m1 = "run_ops (map (\<lambda>(ds, f). Update ds f) pre) m"
  have le: "0 + int (length pre) \<le> max_age m" using lpre ma by simp
  note b = misses_below [OF inv tr ag mpre le]
  have i1: "manager_inv ?m1" and a1: "max_age ?m1 = max_age m"
    and t1: "map_of (tracks ?m1) tid = Some t"
    and g1: "map_of (track_ages ?m1) tid = Some (max_age m)"
    using b lpre ma by simp_all
  note st = miss_step [OF i1 t1 g1 mlast, of f]
  have run: "run_ops (map (\<lambda>(ds, f). Update ds f) misses) m = fst (TrackManager_update ds f ?m1)"
    unfolding sp by (simp add: run_ops_append p)
  show ?thesis unfolding run using st a1 by simp
qed


lemma apply_op_max_age:
  assumes "manager_inv m"
  shows "max_age (fst (apply_op op m)) = max_age m"
proof (cases op)
  case (Update ds f)
  show ?thesis
  proof (cases "snd (update_detections ds f m) = None")
    case True
    let ?m1 = "fst (update_detections ds f m)"
    let ?r = "age_tracks (map fst (tracks ?m1)) (map fst ds) ?m1"
    have inv2: "manager_inv (fst ?r)"
      using assms by (intro age_tracks_inv update_detections_inv)
    have "max_age (fst ?r) = max_age m"
      using age_tracks_fields [of "map fst (tracks ?m1)" "map fst ds" ?m1]
        update_detections_fields [of ds f m] by simp
    then show ?thesis
      unfolding Update apply_op.simps TrackManager_update_normal [OF True]
      using remove_tracks_inv [OF inv2] by simp
  next
    case False
    then show ?thesis
      unfolding Update apply_op.simps TrackManager_update_raise [OF False]
      using update_detections_fields [of ds f m] by simp
  qed
next
  case (RemoveTrack k)
  then show ?thesis using remove_track_inv [OF assms, of k] by simp
next
  case Clear
  then show ?thesis using remove_tracks_inv [OF assms] by (simp add: clear_def)
qed

lemma run_ops_max_age: "manager_inv m \<Longrightarrow> max_age (run_ops ops m) = max_age m"
proof (induction ops arbitrary: m)
  case Nil
  then show ?case by simp
next
  case (Cons op ops)
  then show ?case using apply_op_inv [of m op] apply_op_max_age [of m op] by simp
qed

lemma stored_track_active: "map_of (tracks m) k = Some t \<Longrightarrow> t \<in> set (get_active_tracks m)"
  unfolding get_active_tracks_def using map_of_SomeD by force

lemma absent_key_no_track:
  assumes "manager_inv m" "map_of (tracks m) k = None"
  shows "\<forall>t \<in> set (get_active_tracks m). track_id t \<noteq> k"
proof
  fix t assume "t \<in> set (get_active_tracks m)"
  then obtain k' where in_set: "(k', t) \<in> set (tracks m)"
    by (auto simp: get_active_tracks_def)
  then have "track_id t = k'" using assms(1) by (auto simp: manager_inv_def list_all_iff)
  moreover have "k' \<noteq> k" using in_set assms(2) by (force simp: map_of_None_keys)
  ultimately show "track_id t \<noteq> k" by simp
qed

text \<open>
  Claim C4. Take a manager reached from \<^verbatim>\<open>TrackManager(max_age, max_history)\<close> with
  \<open>max_age \<ge> 0\<close>, an \<^verbatim>\<open>update\<close> that returns and whose detections contain the id \<open>tid\<close>,
  and then consecutive \<^verbatim>\<open>update\<close> calls whose detections do not contain \<open>tid\<close>. After at
  most \<open>max_age\<close> such calls (in particular after exactly \<open>max_age\<close>) the track is still in
  \<^verbatim>\<open>get_active_tracks()\<close>, unchanged, and its age is the number of misses. After exactly
  \<open>max_age + 1\<close> such calls the id is a key of neither \<^verbatim>\<open>tracks\<close> nor \<^verbatim>\<open>track_ages\<close>, no
  active track has this id, and the track is in \<^verbatim>\<open>completed_tracks\<close> with
  \<^verbatim>\<open>is_active = False\<close>.
\<close>

theorem eviction_after_max_age_misses:
  assumes reach: "m0 = run_ops ops (TrackManager_init ma mh)"
    and nonneg: "0 \<le> ma"
    and upd: "TrackManager_update ds0 f0 m0 = (m1, None)"
    and hit: "tid \<in> fst ` set ds0"
    and miss: "\<forall>(ds, f) \<in> set misses. tid \<notin> fst ` set ds"
  shows "\<exists>t. map_of (tracks m1) tid = Some t \<and> track_id t = tid \<and>
           (length misses \<le> nat ma \<longrightarrow>
              t \<in> set (get_active_tracks (run_ops (map (\<lambda>(ds, f). Update ds f) misses) m1)) \<and>
              map_of (track_ages (run_ops (map (\<lambda>(ds, f). Update ds f) misses) m1)) tid =
                Some (int (length misses))) \<and>
           (length misses = nat ma + 1 \<longrightarrow>
              tid \<notin> fst ` set (tracks (run_ops (map (\<lambda>(ds, f). Update ds f) misses) m1)) \<and>
              tid \<notin> fst ` set (track_ages (run_ops (map (\<lambda>(ds, f). Update ds f) misses) m1)) \<and>
              t\<lparr>is_active := False\<rparr> \<in>
                set (completed_tracks (run_ops (map (\<lambda>(ds, f). Update ds f) misses) m1)) \<and>
              (\<forall>t' \<in> set (get_active_tracks (run_ops (map (\<lambda>(ds, f). Update ds f) misses) m1)).
                 track_id t' \<noteq> tid))"
proof -
  let ?run = "run_ops (map (\<lambda>(ds, f). Update ds f) misses) m1"
  have inv0: "manager_inv m0" unfolding reach using init_inv by (rule run_ops_inv)
  have ma0: "max_age m0 = ma"
    unfolding reach using run_ops_max_age [OF init_inv, of ops ma mh]
    by (simp add: TrackManager_init_def)
  have ok: "snd (TrackManager_update ds0 f0 m0) = None" and m1: "m1 = fst (TrackManager_update ds0 f0 m0)"
    using upd by simp_all
  note h = hit_step [OF inv0 ok hit]
  have inv1: "manager_inv m1" and ma1: "max_age m1 = ma"
    and ag1: "map_of (track_ages m1) tid = Some 0"
    using h ma0 m1 by simp_all
  obtain t where tr1: "map_of (tracks m1) tid = Some t" using h m1 by auto
  have tid: "track_id t = tid"
    using inv1 tr1 by (auto simp: manager_inv_def intro: stored_track_id)
  have below: "t \<in> set (get_active_tracks ?run) \<and>
               map_of (track_ages ?run) tid = Some (int (length misses))"
    if "length misses \<le> nat ma"
  proof -
    have le: "0 + int (length misses) \<le> max_age m1" using that ma1 nonneg by simp
    note b = misses_below [OF inv1 tr1 ag1 miss le]
    then show ?thesis using stored_track_active [of ?run tid t] by simp
  qed
  have above: "tid \<notin> fst ` set (tracks ?run) \<and> tid \<notin> fst ` set (track_ages ?run) \<and>
               t\<lparr>is_active := False\<rparr> \<in> set (completed_tracks ?run) \<and>
               (\<forall>t' \<in> set (get_active_tracks ?run). track_id t' \<noteq> tid)"
    if "length misses = nat ma + 1"
  proof -
    have len: "length misses = nat (max_age m1) + 1" using that ma1 by simp
    have nn: "0 \<le> max_age m1" using nonneg ma1 by simp
    note e = misses_evict [OF inv1 tr1 ag1 miss nn len]
    then have "\<forall>t' \<in> set (get_active_tracks ?run). track_id t' \<noteq> tid"
      using absent_key_no_track [of ?run tid] by simp
    then show ?thesis using e by (simp add: map_of_None_keys)
  qed
  show ?thesis using tr1 tid below above by blast
qed

theorem eviction_after_max_age_misses_witness:
  "(0::int) \<le> 1 \<and>
   snd (TrackManager_update [(1, (0, 0, 10, 10), None, None)] 0 (TrackManager_init 1 30)) = None \<and>
   get_active_tracks (run_ops [Update [] 1]
     (fst (TrackManager_update [(1, (0, 0, 10, 10), None, None)] 0 (TrackManager_init 1 30)))) \<noteq> [] \<and>
   1 \<notin> fst ` set (tracks (run_ops [Update [] 1, Update [] 2]
     (fst (TrackManager_update [(1, (0, 0, 10, 10), None, None)] 0 (TrackManager_init 1 30))))) \<and>
   1 \<notin> fst ` set (track_ages (run_ops [Update [] 1, Update [] 2]
     (fst (TrackManager_update [(1, (0, 0, 10, 10), None, None)] 0 (TrackManager_init 1 30)))))"
proof -
  let ?m0 = "TrackManager_init 1 30"
  let ?ds0 = "[(1, (0, 0, 10, 10), None, None)] :: detection list"
  let ?m1 = "fst (TrackManager_update ?ds0 0 ?m0)"
  have reach: "?m0 = run_ops [] (TrackManager_init 1 30)" by simp
  have ok: "snd (TrackManager_update ?ds0 0 ?m0) = None"
    by (simp add: TrackManager_init_def TrackManager_update_def remove_track_def
        VehicleTrack_init_def Let_def)
  then have upd: "TrackManager_update ?ds0 0 ?m0 = (?m1, None)"
    by (simp add: prod_eq_iff)
  have hit: "(1::int) \<in> fst ` set ?ds0" by simp
  have miss1: "\<forall>(ds, f) \<in> set [([] :: detection list, 1 :: int)]. (1::int) \<notin> fst ` set ds"
    by simp
  have miss2: "\<forall>(ds, f) \<in> set [([] :: detection list, 1 :: int), ([], 2)].
      (1::int) \<notin> fst ` set ds"
    by simp
  have nn: "(0::int) \<le> 1" by simp
  show ?thesis
    using ok eviction_after_max_age_misses [OF reach nn upd hit miss1]
      eviction_after_max_age_misses [OF reach nn upd hit miss2]
    by auto
qed

end
